theory Spec2Isabelle
  imports Complex_Main "HOL-Library.Log_Nat"
begin

section \<open>Python values\<close>

text \<open>
  The program is the class \<open>InvestorBriefingExtractor\<close> of
  \<^verbatim>\<open>InvestorBriefingExtractor-AI.py\<close>. Its records are dictionaries produced by
  \<open>json.loads\<close> or \<open>csv.DictReader\<close>, so a field holds \<open>None\<close>, a bool, an int,
  a float, a string, a list or a dictionary.

  A Python float is an IEEE-754 binary64 number. A finite one is represented by the
  rational it denotes (the two zeros are identified: the program never divides by a
  float zero and never prints through this model), next to the two infinities and NaN.
  Every float operation of the program rounds its exact result with \<open>fl\<close>, round to
  nearest, ties to even, with gradual underflow and overflow to infinity.
\<close>

datatype pyfloat = Fin rat | PInf | NInf | NaN

datatype pyval =
    PNone
  | PBool bool
  | PInt int
  | PFloat pyfloat
  | PStr string
  | PList "pyval list"
  | PDict "(string \<times> pyval) list"

type_synonym raw_record = "string \<rightharpoonup> pyval"

datatype py_exception =
    ValueError string
  | TypeError string
  | OverflowError string
  | KeyError string
  | AttributeError string
  | ZeroDivisionError string

text \<open>
  \<open>str(e)\<close>: the message of an exception; for a \<open>KeyError\<close> it is the repr of the key
  (the keys the program looks up need no escape). The messages of the exceptions the
  interpreter raises itself are those of CPython 3.11; they name the type of the
  offending value, \<open>type(v).__name__\<close>, between single quotes.
\<close>

definition quoted :: "string \<Rightarrow> string" where
  "quoted s = [CHR 0x27] @ s @ [CHR 0x27]"

fun type_name :: "pyval \<Rightarrow> string" where
  "type_name PNone = ''NoneType''"
| "type_name (PBool b) = ''bool''"
| "type_name (PInt n) = ''int''"
| "type_name (PFloat f) = ''float''"
| "type_name (PStr s) = ''str''"
| "type_name (PList xs) = ''list''"
| "type_name (PDict kvs) = ''dict''"

fun str_of_exception :: "py_exception \<Rightarrow> string" where
  "str_of_exception (ValueError m) = m"
| "str_of_exception (TypeError m) = m"
| "str_of_exception (OverflowError m) = m"
| "str_of_exception (KeyError k) = quoted k"
| "str_of_exception (AttributeError m) = m"
| "str_of_exception (ZeroDivisionError m) = m"

text \<open>Truth value testing: \<open>not record[field]\<close>, \<open>and record["key_metrics"]\<close>.\<close>

fun truthy :: "pyval \<Rightarrow> bool" where
  "truthy PNone = False"
| "truthy (PBool b) = b"
| "truthy (PInt n) = (n \<noteq> 0)"
| "truthy (PFloat f) = (f \<noteq> Fin 0)"
| "truthy (PStr s) = (s \<noteq> [])"
| "truthy (PList xs) = (xs \<noteq> [])"
| "truthy (PDict kvs) = (kvs \<noteq> [])"

subsection \<open>Binary64 rounding\<close>

definition pow2 :: "int \<Rightarrow> rat" where
  "pow2 k = (if 0 \<le> k then 2 ^ nat k else 1 / 2 ^ nat (- k))"

definition pow10 :: "int \<Rightarrow> rat" where
  "pow10 k = (if 0 \<le> k then 10 ^ nat k else 1 / 10 ^ nat (- k))"

text \<open>For \<open>0 < q\<close>, the exponent \<open>e\<close> with \<open>2\<^sup>e \<le> q < 2\<^sup>e\<^sup>+\<^sup>1\<close>.\<close>

definition floor_log2 :: "rat \<Rightarrow> int" where
  "floor_log2 q =
     (let (a, b) = quotient_of q; d = bitlen a - bitlen b
      in if pow2 d \<le> q then d else d - 1)"

definition round_half_even :: "rat \<Rightarrow> int" where
  "round_half_even x =
     (let f = \<lfloor>x\<rfloor>; d = x - of_int f
      in if d < 1 / 2 then f
         else if 1 / 2 < d then f + 1
         else if even f then f else f + 1)"

definition fl :: "rat \<Rightarrow> pyfloat" where
  "fl q =
     (if q = 0 then Fin 0
      else
        let e = max (floor_log2 \<bar>q\<bar>) (- 1022);
            u = pow2 (e - 52);
            r = of_int (round_half_even (q / u)) * u
        in if pow2 1024 \<le> \<bar>r\<bar> then (if 0 < q then PInf else NInf) else Fin r)"

text \<open>Float addition, multiplication, division and the comparisons \<open>>\<close> and \<open><=\<close>.\<close>

fun fadd :: "pyfloat \<Rightarrow> pyfloat \<Rightarrow> pyfloat" where
  "fadd NaN _ = NaN"
| "fadd _ NaN = NaN"
| "fadd PInf NInf = NaN"
| "fadd NInf PInf = NaN"
| "fadd PInf _ = PInf"
| "fadd _ PInf = PInf"
| "fadd NInf _ = NInf"
| "fadd _ NInf = NInf"
| "fadd (Fin a) (Fin b) = fl (a + b)"

definition fsign :: "pyfloat \<Rightarrow> int" where
  "fsign x =
     (case x of
        Fin a \<Rightarrow> (if a < 0 then - 1 else if a = 0 then 0 else 1)
      | PInf \<Rightarrow> 1 | NInf \<Rightarrow> - 1 | NaN \<Rightarrow> 0)"

fun fmul :: "pyfloat \<Rightarrow> pyfloat \<Rightarrow> pyfloat" where
  "fmul NaN _ = NaN"
| "fmul _ NaN = NaN"
| "fmul (Fin a) (Fin b) = fl (a * b)"
| "fmul x y =
     (if fsign x * fsign y = 0 then NaN else if 0 < fsign x * fsign y then PInf else NInf)"

text \<open>\<open>x / y\<close> on floats raises \<open>ZeroDivisionError\<close> when \<open>y\<close> is zero.\<close>

fun fdiv :: "pyfloat \<Rightarrow> pyfloat \<Rightarrow> py_exception + pyfloat" where
  "fdiv x (Fin b) =
     (if b = 0 then Inl (ZeroDivisionError ''float division by zero'')
      else case x of
             Fin a \<Rightarrow> Inr (fl (a / b))
           | NaN \<Rightarrow> Inr NaN
           | _ \<Rightarrow> Inr (if 0 < fsign x * fsign (Fin b) then PInf else NInf))"
| "fdiv NaN _ = Inr NaN"
| "fdiv _ NaN = Inr NaN"
| "fdiv (Fin a) _ = Inr (Fin 0)"
| "fdiv _ _ = Inr NaN"

fun fgt :: "pyfloat \<Rightarrow> pyfloat \<Rightarrow> bool" where
  "fgt NaN _ = False"
| "fgt _ NaN = False"
| "fgt PInf y = (y \<noteq> PInf)"
| "fgt NInf _ = False"
| "fgt (Fin a) PInf = False"
| "fgt (Fin a) NInf = True"
| "fgt (Fin a) (Fin b) = (b < a)"

fun fle :: "pyfloat \<Rightarrow> pyfloat \<Rightarrow> bool" where
  "fle NaN _ = False"
| "fle _ NaN = False"
| "fle x y = (\<not> fgt x y)"

text \<open>
  \<open>float(n)\<close> of an int rounds to the nearest float and raises \<open>OverflowError\<close> when
  that is out of range; \<open>a / b\<close> on ints is the correctly rounded quotient, with
  \<open>ZeroDivisionError\<close> for \<open>b = 0\<close>.
\<close>

definition float_of_int :: "int \<Rightarrow> py_exception + pyfloat" where
  "float_of_int n =
     (case fl (of_int n) of
        Fin r \<Rightarrow> Inr (Fin r)
      | _ \<Rightarrow> Inl (OverflowError ''int too large to convert to float''))"

definition int_truediv :: "int \<Rightarrow> int \<Rightarrow> py_exception + pyfloat" where
  "int_truediv a b =
     (if b = 0 then Inl (ZeroDivisionError ''division by zero'')
      else case fl (of_int a / of_int b) of
             Fin r \<Rightarrow> Inr (Fin r)
           | _ \<Rightarrow> Inl (OverflowError ''integer division result too large for a float''))"

section \<open>Strings\<close>

text \<open>
  A Python string is a sequence of code points; a \<open>char\<close> here is one code point of the
  Latin-1 range \<open>0..255\<close>, classified as Python classifies it: \<open>str.isspace\<close> for
  \<open>split\<close> and \<open>float\<close>, \<open>str.lower\<close>, and the classes \<open>\d\<close> (decimal digits) and
  \<open>\w\<close> (alphanumerics and the underscore) of the \<open>re\<close> module on \<open>str\<close> patterns.
\<close>

definition py_isspace :: "char \<Rightarrow> bool" where
  "py_isspace c =
     (let n = (of_char c :: nat)
      in (9 \<le> n \<and> n \<le> 13) \<or> (28 \<le> n \<and> n \<le> 32) \<or> n = 133 \<or> n = 160)"

definition is_digit :: "char \<Rightarrow> bool" where
  "is_digit c = (let n = (of_char c :: nat) in 48 \<le> n \<and> n \<le> 57)"

definition digit_val :: "char \<Rightarrow> nat" where
  "digit_val c = of_char c - 48"

definition py_lower_char :: "char \<Rightarrow> char" where
  "py_lower_char c =
     (let n = (of_char c :: nat)
      in if (65 \<le> n \<and> n \<le> 90) \<or> (192 \<le> n \<and> n \<le> 222 \<and> n \<noteq> 215)
         then char_of (n + 32) else c)"

definition py_lower :: "string \<Rightarrow> string" where
  "py_lower s = map py_lower_char s"

definition is_word_char :: "char \<Rightarrow> bool" where
  "is_word_char c =
     (let n = (of_char c :: nat)
      in (48 \<le> n \<and> n \<le> 57) \<or> (65 \<le> n \<and> n \<le> 90) \<or> n = 95 \<or> (97 \<le> n \<and> n \<le> 122)
         \<or> n = 170 \<or> n = 178 \<or> n = 179 \<or> n = 181 \<or> n = 185 \<or> n = 186
         \<or> (188 \<le> n \<and> n \<le> 190) \<or> (192 \<le> n \<and> n \<le> 214) \<or> (216 \<le> n \<and> n \<le> 246)
         \<or> 248 \<le> n)"

text \<open>\<open>str(n)\<close> for a non-negative int, as the f-strings \<open>{i}\<close> and \<open>{len(records)}\<close> need it.\<close>

fun str_of_nat :: "nat \<Rightarrow> string" where
  "str_of_nat n =
     (if n < 10 then [char_of (48 + n)]
      else str_of_nat (n div 10) @ [char_of (48 + n mod 10)])"

text \<open>\<open>sep.join(xs)\<close>.\<close>

fun join :: "string \<Rightarrow> string list \<Rightarrow> string" where
  "join sep [] = []"
| "join sep [x] = x"
| "join sep (x # y # ys) = x @ sep @ join sep (y # ys)"

text \<open>\<open>s.split()\<close>: the maximal runs of non-whitespace characters.\<close>

fun split_acc :: "string \<Rightarrow> string \<Rightarrow> string list" where
  "split_acc w [] = (if w = [] then [] else [w])"
| "split_acc w (c # cs) =
     (if py_isspace c then (if w = [] then split_acc [] cs else w # split_acc [] cs)
      else split_acc (w @ [c]) cs)"

definition py_split :: "string \<Rightarrow> string list" where
  "py_split s = split_acc [] s"

subsection \<open>\<open>float(s)\<close> on a string\<close>

text \<open>
  \<open>float\<close> strips whitespace (the ASCII blanks tab to carriage return and space, and
  the two other blanks of Latin-1, but not the separators U+001C to U+001F, which
  \<open>split\<close> does take for blanks), reads an optional sign, then \<open>inf\<close>, \<open>infinity\<close> or
  \<open>nan\<close> in any case, or a decimal number: digits with single underscores between
  them, an optional point, an optional exponent. The value is the decimal, correctly
  rounded. Anything else raises \<open>ValueError\<close> (here \<open>None\<close>).
\<close>

definition float_isspace :: "char \<Rightarrow> bool" where
  "float_isspace c =
     (let n = (of_char c :: nat) in (9 \<le> n \<and> n \<le> 13) \<or> n = 32 \<or> n = 133 \<or> n = 160)"

definition float_strip :: "string \<Rightarrow> string" where
  "float_strip s = rev (dropWhile float_isspace (rev (dropWhile float_isspace s)))"

text \<open>
  \<open>repr(s)\<close> of a string, which the message of the \<open>ValueError\<close> of \<open>float\<close> ends
  with: between double quotes when the string has a single quote and no double quote,
  between single quotes otherwise, with the quote and the backslash escaped, tab,
  newline and carriage return as \<open>\t\<close>, \<open>\n\<close>, \<open>\r\<close>, and the other characters
  that are not printable as \<open>\xhh\<close>.
\<close>

definition hex_digit :: "nat \<Rightarrow> char" where
  "hex_digit n = ''0123456789abcdef'' ! (n mod 16)"

definition repr_char :: "char \<Rightarrow> char \<Rightarrow> string" where
  "repr_char quote c =
     (let n = (of_char c :: nat)
      in if c = quote \<or> c = CHR 0x5C then [CHR 0x5C, c]
         else if n = 9 then [CHR 0x5C, CHR ''t'']
         else if n = 10 then [CHR 0x5C, CHR ''n'']
         else if n = 13 then [CHR 0x5C, CHR ''r'']
         else if n < 32 \<or> n = 127 \<or> (128 \<le> n \<and> n \<le> 160) \<or> n = 173
           then [CHR 0x5C, CHR ''x'', hex_digit (n div 16), hex_digit n]
         else [c])"

definition py_repr :: "string \<Rightarrow> string" where
  "py_repr s =
     (let quote = (if CHR 0x27 \<in> set s \<and> CHR 0x22 \<notin> set s then CHR 0x22 else CHR 0x27)
      in [quote] @ concat (map (repr_char quote) s) @ [quote])"

fun digitpart :: "string \<Rightarrow> string \<times> string" where
  "digitpart [] = ([], [])"
| "digitpart [c] = (if is_digit c then ([c], []) else ([], [c]))"
| "digitpart (c # u # cs) =
     (if \<not> is_digit c then ([], c # u # cs)
      else if is_digit u then (let (ds, r) = digitpart (u # cs) in (c # ds, r))
      else if u = CHR ''_'' \<and> cs \<noteq> [] \<and> is_digit (hd cs)
           then (let (ds, r) = digitpart cs in (c # ds, r))
      else ([c], u # cs))"

definition split_sign :: "string \<Rightarrow> bool \<times> string" where
  "split_sign s =
     (case s of
        [] \<Rightarrow> (False, [])
      | c # cs \<Rightarrow> if c = CHR ''-'' then (True, cs)
                  else if c = CHR ''+'' then (False, cs) else (False, s))"

definition nat_of_digits :: "string \<Rightarrow> nat" where
  "nat_of_digits ds = foldl (\<lambda>n c. 10 * n + digit_val c) 0 ds"

definition parse_exponent :: "string \<Rightarrow> int option" where
  "parse_exponent s =
     (case s of
        [] \<Rightarrow> Some 0
      | c # cs \<Rightarrow>
          if c = CHR ''e'' \<or> c = CHR ''E'' then
            (let (neg, r) = split_sign cs; (ds, rest) = digitpart r
             in if ds \<noteq> [] \<and> rest = []
                then Some (if neg then - int (nat_of_digits ds) else int (nat_of_digits ds))
                else None)
          else None)"

definition parse_decimal :: "string \<Rightarrow> rat option" where
  "parse_decimal s =
     (let (ip, r1) = digitpart s;
          (fp, r2) = (case r1 of
                        [] \<Rightarrow> ([], [])
                      | c # cs \<Rightarrow> if c = CHR ''.'' then digitpart cs else ([], r1));
          dotted = (r1 \<noteq> [] \<and> hd r1 = CHR ''.'')
      in if ip = [] \<and> (\<not> dotted \<or> fp = []) then None
         else case parse_exponent r2 of
                None \<Rightarrow> None
              | Some ex \<Rightarrow>
                  Some (of_nat (nat_of_digits (ip @ fp)) * pow10 (ex - int (length fp))))"

definition parse_float :: "string \<Rightarrow> pyfloat option" where
  "parse_float s =
     (let (neg, body) = split_sign (float_strip s); w = py_lower body
      in if w = ''inf'' \<or> w = ''infinity'' then Some (if neg then NInf else PInf)
         else if w = ''nan'' then Some NaN
         else case parse_decimal body of
                None \<Rightarrow> None
              | Some q \<Rightarrow> Some (fl (if neg then - q else q)))"

text \<open>\<open>float(v)\<close> on a decoded value.\<close>

fun py_float :: "pyval \<Rightarrow> py_exception + pyfloat" where
  "py_float (PFloat f) = Inr f"
| "py_float (PInt n) = float_of_int n"
| "py_float (PBool b) = Inr (Fin (if b then 1 else 0))"
| "py_float (PStr s) =
     (case parse_float s of
        None \<Rightarrow> Inl (ValueError (''could not convert string to float: '' @ py_repr s))
      | Some f \<Rightarrow> Inr f)"
| "py_float v =
     Inl (TypeError (''float() argument must be a string or a real number, not ''
                       @ quoted (type_name v)))"

section \<open>The schema validator\<close>

subsection \<open>\<open>_is_valid_date\<close>\<close>

text \<open>
  First layer: \<open>re.match(r"^\d{4}-\d{2}-\d{2}$", date_str)\<close>. In Python \<open>$\<close> also
  matches just before a newline that ends the string. \<open>re.match\<close> raises \<open>TypeError\<close>
  on a value that is not a string.
\<close>

definition date_shape :: "string \<Rightarrow> bool" where
  "date_shape s =
     (length s = 10
      \<and> is_digit (s ! 0) \<and> is_digit (s ! 1) \<and> is_digit (s ! 2) \<and> is_digit (s ! 3)
      \<and> s ! 4 = CHR ''-''
      \<and> is_digit (s ! 5) \<and> is_digit (s ! 6)
      \<and> s ! 7 = CHR ''-''
      \<and> is_digit (s ! 8) \<and> is_digit (s ! 9))"

definition date_pattern_matches :: "string \<Rightarrow> bool" where
  "date_pattern_matches s =
     (date_shape s \<or> (length s = 11 \<and> s ! 10 = CHR 0x0A \<and> date_shape (take 10 s)))"

text \<open>
  Second layer: \<open>datetime.datetime.strptime(date_str, "%Y-%m-%d")\<close>, a function of the
  standard library. It reads four digits for \<open>%Y\<close>, then for \<open>%m\<close> the first that
  fits of \<open>1[0-2]\<close>, \<open>0[1-9]\<close>, \<open>[1-9]\<close>, then for \<open>%d\<close> the first that fits of
  \<open>3[01]\<close>, \<open>[12]\d\<close>, \<open>0[1-9]\<close>, \<open>[1-9]\<close>, \<open> [1-9]\<close>, with a hyphen between
  them; it raises \<open>ValueError\<close> (here \<open>None\<close>) when that fails, when characters
  remain, or when the three numbers are not a date of the proleptic Gregorian
  calendar with a year from 1 to 9999.
\<close>

definition leap_year :: "nat \<Rightarrow> bool" where
  "leap_year y = (y mod 4 = 0 \<and> (y mod 100 \<noteq> 0 \<or> y mod 400 = 0))"

definition days_in_month :: "nat \<Rightarrow> nat \<Rightarrow> nat" where
  "days_in_month y m =
     (if m = 2 then (if leap_year y then 29 else 28)
      else if m = 4 \<or> m = 6 \<or> m = 9 \<or> m = 11 then 30 else 31)"

definition calendar_date :: "nat \<Rightarrow> nat \<Rightarrow> nat \<Rightarrow> bool" where
  "calendar_date y m d =
     (1 \<le> y \<and> y \<le> 9999 \<and> 1 \<le> m \<and> m \<le> 12 \<and> 1 \<le> d \<and> d \<le> days_in_month y m)"

definition take_year :: "string \<Rightarrow> (nat \<times> string) option" where
  "take_year s =
     (if 4 \<le> length s \<and> list_all is_digit (take 4 s)
      then Some (nat_of_digits (take 4 s), drop 4 s) else None)"

definition take_month :: "string \<Rightarrow> (nat \<times> string) option" where
  "take_month s =
     (case s of
        a # b # rest \<Rightarrow>
          if a = CHR ''1'' \<and> (b = CHR ''0'' \<or> b = CHR ''1'' \<or> b = CHR ''2'')
            then Some (nat_of_digits [a, b], rest)
          else if a = CHR ''0'' \<and> is_digit b \<and> b \<noteq> CHR ''0''
            then Some (nat_of_digits [a, b], rest)
          else if is_digit a \<and> a \<noteq> CHR ''0'' then Some (digit_val a, b # rest)
          else None
      | [a] \<Rightarrow> if is_digit a \<and> a \<noteq> CHR ''0'' then Some (digit_val a, []) else None
      | [] \<Rightarrow> None)"

definition take_day :: "string \<Rightarrow> (nat \<times> string) option" where
  "take_day s =
     (case s of
        a # b # rest \<Rightarrow>
          if a = CHR ''3'' \<and> (b = CHR ''0'' \<or> b = CHR ''1'')
            then Some (nat_of_digits [a, b], rest)
          else if (a = CHR ''1'' \<or> a = CHR ''2'') \<and> is_digit b
            then Some (nat_of_digits [a, b], rest)
          else if a = CHR ''0'' \<and> is_digit b \<and> b \<noteq> CHR ''0''
            then Some (nat_of_digits [a, b], rest)
          else if is_digit a \<and> a \<noteq> CHR ''0'' then Some (digit_val a, b # rest)
          else if a = CHR '' '' \<and> is_digit b \<and> b \<noteq> CHR ''0''
            then Some (digit_val b, rest)
          else None
      | [a] \<Rightarrow> if is_digit a \<and> a \<noteq> CHR ''0'' then Some (digit_val a, []) else None
      | [] \<Rightarrow> None)"

definition take_hyphen :: "string \<Rightarrow> string option" where
  "take_hyphen s = (case s of [] \<Rightarrow> None | c # cs \<Rightarrow> if c = CHR ''-'' then Some cs else None)"

definition strptime_ymd :: "string \<Rightarrow> (nat \<times> nat \<times> nat) option" where
  "strptime_ymd s =
     (case take_year s of
        None \<Rightarrow> None
      | Some (y, r1) \<Rightarrow>
     (case take_hyphen r1 of
        None \<Rightarrow> None
      | Some r2 \<Rightarrow>
     (case take_month r2 of
        None \<Rightarrow> None
      | Some (m, r3) \<Rightarrow>
     (case take_hyphen r3 of
        None \<Rightarrow> None
      | Some r4 \<Rightarrow>
     (case take_day r4 of
        None \<Rightarrow> None
      | Some (d, r5) \<Rightarrow>
          if r5 = [] \<and> calendar_date y m d then Some (y, m, d) else None)))))"

fun is_valid_date :: "pyval \<Rightarrow> py_exception + bool" where
  "is_valid_date (PStr date_str) =
     (if \<not> date_pattern_matches date_str then Inr False
      else case strptime_ymd date_str of Some _ \<Rightarrow> Inr True | None \<Rightarrow> Inr False)"
| "is_valid_date v =
     Inl (TypeError (''expected string or bytes-like object, got '' @ quoted (type_name v)))"

subsection \<open>The per-record checks of \<open>validate_data\<close>\<close>

text \<open>
  \<open>validate_data\<close> appends one message string per finding. The four messages it can
  build are the four constructors below; \<open>error_text\<close> is the string the source
  appends. The number is the 1-based index of the record.
\<close>

datatype diagnostic =
    Missing_fields "string list" nat
  | Invalid_date nat
  | Nonpositive_key_metrics nat
  | Nonnumeric_key_metrics nat

fun error_text :: "diagnostic \<Rightarrow> string" where
  "error_text (Missing_fields fs i) =
     ''ERROR: Missing required field(s): '' @ join '', '' fs @ '' in record '' @ str_of_nat i
       @ ''.''"
| "error_text (Invalid_date i) =
     ''ERROR: Invalid value for the field(s): date in record '' @ str_of_nat i
       @ ''. Please correct and resubmit.''"
| "error_text (Nonpositive_key_metrics i) =
     ''ERROR: Invalid value for the field(s): key_metrics in record '' @ str_of_nat i
       @ ''. Must be a positive number.''"
| "error_text (Nonnumeric_key_metrics i) =
     ''ERROR: Invalid data type for the field(s): key_metrics in record '' @ str_of_nat i
       @ ''. Please ensure numeric values.''"

text \<open>
  The classes of the specification: a "Missing required field(s)" message is a
  \<open>missing_field\<close> diagnostic, an "Invalid value" message an \<open>invalid_format\<close> one, an
  "Invalid data type" message an \<open>invalid_type\<close> one; \<open>diag_fields\<close> are the fields
  the message names.
\<close>

datatype diag_class = missing_field | invalid_format | invalid_type

fun classify :: "diagnostic \<Rightarrow> diag_class" where
  "classify (Missing_fields fs i) = missing_field"
| "classify (Invalid_date i) = invalid_format"
| "classify (Nonpositive_key_metrics i) = invalid_format"
| "classify (Nonnumeric_key_metrics i) = invalid_type"

fun diag_fields :: "diagnostic \<Rightarrow> string list" where
  "diag_fields (Missing_fields fs i) = fs"
| "diag_fields (Invalid_date i) = [''date'']"
| "diag_fields (Nonpositive_key_metrics i) = [''key_metrics'']"
| "diag_fields (Nonnumeric_key_metrics i) = [''key_metrics'']"

fun diag_record :: "diagnostic \<Rightarrow> nat" where
  "diag_record (Missing_fields fs i) = i"
| "diag_record (Invalid_date i) = i"
| "diag_record (Nonpositive_key_metrics i) = i"
| "diag_record (Nonnumeric_key_metrics i) = i"

definition required_fields :: "string list" where
  "required_fields = [''briefing_id'', ''date'', ''briefing_text'']"

text \<open>\<open>field in record and record[field]\<close>.\<close>

definition field_given :: "raw_record \<Rightarrow> string \<Rightarrow> bool" where
  "field_given record field = (case record field of None \<Rightarrow> False | Some v \<Rightarrow> truthy v)"

definition missing_fields :: "raw_record \<Rightarrow> string list" where
  "missing_fields record = filter (\<lambda>field. \<not> field_given record field) required_fields"

text \<open>\<open>record[field]\<close>, a \<open>KeyError\<close> when the key is absent.\<close>

definition getitem :: "raw_record \<Rightarrow> string \<Rightarrow> py_exception + pyval" where
  "getitem record field = (case record field of None \<Rightarrow> Inl (KeyError field) | Some v \<Rightarrow> Inr v)"

text \<open>\<open>float(record["key_metrics"])\<close>.\<close>

definition float_key_metrics :: "raw_record \<Rightarrow> py_exception + pyfloat" where
  "float_key_metrics record =
     (case getitem record ''key_metrics'' of Inl e \<Rightarrow> Inl e | Inr v \<Rightarrow> py_float v)"

text \<open>Lines 49 to 51: the date check.\<close>

definition check_date :: "nat \<Rightarrow> raw_record \<Rightarrow> py_exception + diagnostic list" where
  "check_date i record =
     (case getitem record ''date'' of
        Inl e \<Rightarrow> Inl e
      | Inr v \<Rightarrow>
          (case is_valid_date v of
             Inl e \<Rightarrow> Inl e
           | Inr ok \<Rightarrow> Inr (if ok then [] else [Invalid_date i])))"

text \<open>
  Lines 54 to 62: the \<open>key_metrics\<close> check. Only \<open>ValueError\<close> is caught there; any
  other exception of \<open>float\<close> leaves the loop.
\<close>

definition check_key_metrics :: "nat \<Rightarrow> raw_record \<Rightarrow> py_exception + diagnostic list" where
  "check_key_metrics i record =
     (if field_given record ''key_metrics'' then
        (case float_key_metrics record of
           Inr key_metrics \<Rightarrow>
             Inr (if fle key_metrics (Fin 0) then [Nonpositive_key_metrics i] else [])
         | Inl (ValueError m) \<Rightarrow> Inr [Nonnumeric_key_metrics i]
         | Inl e \<Rightarrow> Inl e)
      else Inr [])"

text \<open>The body of the loop of lines 36 to 62, for the record with index \<open>i\<close>.\<close>

definition validate_record :: "nat \<Rightarrow> raw_record \<Rightarrow> py_exception + diagnostic list" where
  "validate_record i record =
     (if missing_fields record \<noteq> [] then Inr [Missing_fields (missing_fields record) i]
      else
        (case check_date i record of
           Inl e \<Rightarrow> Inl e
         | Inr ds1 \<Rightarrow>
             (case check_key_metrics i record of
                Inl e \<Rightarrow> Inl e
              | Inr ds2 \<Rightarrow> Inr (ds1 @ ds2))))"

text \<open>The loop \<open>for i, record in enumerate(records, 1)\<close>, from index \<open>i\<close> on.\<close>

fun validate_records :: "nat \<Rightarrow> raw_record list \<Rightarrow> py_exception + diagnostic list" where
  "validate_records i [] = Inr []"
| "validate_records i (record # records) =
     (case validate_record i record of
        Inl e \<Rightarrow> Inl e
      | Inr ds \<Rightarrow>
          (case validate_records (Suc i) records of
             Inl e \<Rightarrow> Inl e
           | Inr ds' \<Rightarrow> Inr (ds @ ds')))"

subsection \<open>\<open>_generate_validation_report\<close>\<close>

definition newline :: string where
  "newline = [CHR 0x0A]"

text \<open>
  One pass of the loop of lines 116 to 142: the text added for the record, and
  whether the record leaves \<open>all_valid\<close> as it is. The date test
  \<open>"date" in record and self._is_valid_date(record["date"])\<close> raises on a date that is
  not a string, and \<open>float\<close> may raise something else than \<open>ValueError\<close>.
\<close>

definition report_key_metrics_status :: "raw_record \<Rightarrow> py_exception + string" where
  "report_key_metrics_status record =
     (if field_given record ''key_metrics'' then
        (case float_key_metrics record of
           Inr key_metrics \<Rightarrow>
             Inr (if fgt key_metrics (Fin 0) then ''**valid**'' else ''**invalid**'')
         | Inl (ValueError m) \<Rightarrow> Inr ''**invalid**''
         | Inl e \<Rightarrow> Inl e)
      else Inr ''**not provided**'')"

definition report_date_status :: "raw_record \<Rightarrow> py_exception + string" where
  "report_date_status record =
     (case record ''date'' of
        None \<Rightarrow> Inr ''**invalid**''
      | Some v \<Rightarrow>
          (case is_valid_date v of
             Inl e \<Rightarrow> Inl e
           | Inr ok \<Rightarrow> Inr (if ok then ''**valid**'' else ''**invalid**'')))"

definition report_record :: "nat \<Rightarrow> raw_record \<Rightarrow> py_exception + string \<times> bool" where
  "report_record i record =
     (let briefing_id_status =
            (if field_given record ''briefing_id'' then ''**present**'' else ''**missing**'');
          briefing_text_status =
            (if field_given record ''briefing_text'' then ''**present**'' else ''**missing**'')
      in case report_date_status record of
           Inl e \<Rightarrow> Inl e
         | Inr date_status \<Rightarrow>
             (case report_key_metrics_status record of
                Inl e \<Rightarrow> Inl e
              | Inr key_metrics_status \<Rightarrow>
                  Inr (newline @ ''### Record '' @ str_of_nat i @ newline
                         @ ''- briefing_id: '' @ briefing_id_status @ newline
                         @ ''- date: '' @ date_status @ newline
                         @ ''- briefing_text: '' @ briefing_text_status @ newline
                         @ ''- key_metrics: '' @ key_metrics_status @ newline,
                       \<not> (''**missing**'' \<in> set [briefing_id_status, briefing_text_status]
                          \<or> ''**invalid**'' \<in> set [date_status, key_metrics_status]))))"

fun report_records :: "nat \<Rightarrow> raw_record list \<Rightarrow> py_exception + string \<times> bool" where
  "report_records i [] = Inr ([], True)"
| "report_records i (record # records) =
     (case report_record i record of
        Inl e \<Rightarrow> Inl e
      | Inr (text1, ok1) \<Rightarrow>
          (case report_records (Suc i) records of
             Inl e \<Rightarrow> Inl e
           | Inr (text2, ok2) \<Rightarrow> Inr (text1 @ text2, ok1 \<and> ok2)))"

definition generate_validation_report ::
  "raw_record list \<Rightarrow> string list \<Rightarrow> py_exception + string" where
  "generate_validation_report records error_messages =
     (case report_records 1 records of
        Inl e \<Rightarrow> Inl e
      | Inr (body, all_valid) \<Rightarrow>
          Inr (''# Investor Briefing Data Validation Report'' @ newline
                 @ ''## Overview'' @ newline
                 @ ''- Total Briefings Provided: '' @ str_of_nat (length records) @ newline
                 @ ''## Field Checks per Record'' @ newline
                 @ body
                 @ newline @ ''## Summary'' @ newline
                 @ (if all_valid \<and> error_messages = [] then
                      ''Data validation is successful! Would you like to proceed with theme extraction?''
                        @ newline
                    else
                      ''The following errors were found:'' @ newline
                        @ concat (map (\<lambda>error. ''- '' @ error @ newline) error_messages))))"

subsection \<open>\<open>validate_data\<close>\<close>

text \<open>
  The decoders \<open>_parse_json\<close> and \<open>_parse_csv\<close> rest on \<open>json.loads\<close> and
  \<open>csv.DictReader\<close>; they are parameters here, each returning the decoded records or
  the exception it raises. The decoded records are taken to be dictionaries, as the
  records of a briefing batch are. The result is the tuple
  \<open>(is_valid, records, validation_report, error_messages)\<close>.
\<close>

type_synonym validation_outcome = "bool \<times> raw_record list \<times> string \<times> string list"

text \<open>Lines 35 to 66, inside the \<open>try\<close>, once the records are decoded.\<close>

definition validate_decoded :: "raw_record list \<Rightarrow> py_exception + validation_outcome" where
  "validate_decoded records =
     (case validate_records 1 records of
        Inl e \<Rightarrow> Inl e
      | Inr diagnostics \<Rightarrow>
          (let error_messages = map error_text diagnostics
           in case generate_validation_report records error_messages of
                Inl e \<Rightarrow> Inl e
              | Inr validation_report \<Rightarrow>
                  Inr (length error_messages = 0, records, validation_report,
                       error_messages)))"

text \<open>The handler of lines 68 to 70.\<close>

definition on_exception :: "py_exception + validation_outcome \<Rightarrow> validation_outcome" where
  "on_exception res =
     (case res of
        Inr outcome \<Rightarrow> outcome
      | Inl e \<Rightarrow>
          (let error_msg = ''ERROR: '' @ str_of_exception e
           in (False, [], error_msg, [error_msg])))"

definition validate_data ::
  "(string \<Rightarrow> py_exception + raw_record list) \<Rightarrow> (string \<Rightarrow> py_exception + raw_record list)
     \<Rightarrow> string \<Rightarrow> string \<Rightarrow> validation_outcome" where
  "validate_data parse_json parse_csv data_str data_format =
     (if py_lower data_format = ''json'' then
        on_exception
          (case parse_json data_str of Inl e \<Rightarrow> Inl e | Inr records \<Rightarrow> validate_decoded records)
      else if py_lower data_format = ''csv'' then
        on_exception
          (case parse_csv data_str of Inl e \<Rightarrow> Inl e | Inr records \<Rightarrow> validate_decoded records)
      else
        (False, [], ''ERROR: Invalid data format. Please provide data in CSV or JSON format.'',
         []))"

text \<open>The decoder that \<open>validate_data\<close> calls for an accepted format.\<close>

definition decoded_by ::
  "(string \<Rightarrow> py_exception + raw_record list) \<Rightarrow> (string \<Rightarrow> py_exception + raw_record list)
     \<Rightarrow> string \<Rightarrow> string \<Rightarrow> py_exception + raw_record list" where
  "decoded_by parse_json parse_csv data_str data_format =
     (if py_lower data_format = ''json'' then parse_json data_str else parse_csv data_str)"

section \<open>The thematic scorer\<close>

definition expected_keywords :: "string list" where
  "expected_keywords =
     [''growth'', ''risk'', ''innovation'', ''market'', ''confidence'',
      ''investment'', ''strategic'', ''opportunity'', ''challenges'', ''expansion'']"

subsection \<open>Counting the matches of \<open>\bkeyword\b\<close>\<close>

text \<open>
  \<open>\b\<close> matches at position \<open>i\<close> when exactly one of the characters before and after
  \<open>i\<close> is a word character, the outside of the string counting as none.
  \<open>re.escape(keyword)\<close> matches the keyword literally.
\<close>

definition word_at :: "string \<Rightarrow> nat \<Rightarrow> bool" where
  "word_at s i = (i < length s \<and> is_word_char (s ! i))"

definition boundary :: "string \<Rightarrow> nat \<Rightarrow> bool" where
  "boundary s i = ((0 < i \<and> word_at s (i - 1)) \<noteq> word_at s i)"

definition match_at :: "string \<Rightarrow> string \<Rightarrow> nat \<Rightarrow> bool" where
  "match_at keyword s i =
     (boundary s i \<and> i + length keyword \<le> length s
      \<and> take (length keyword) (drop i s) = keyword
      \<and> boundary s (i + length keyword))"

text \<open>
  \<open>sum(1 for _ in re.finditer(pattern, s))\<close>: \<open>finditer\<close> scans from left to right and
  resumes after the end of each match (one position further after an empty match).
\<close>

function count_matches :: "string \<Rightarrow> string \<Rightarrow> nat \<Rightarrow> nat" where
  "count_matches keyword s pos =
     (if length s < pos then 0
      else if match_at keyword s pos
        then Suc (count_matches keyword s (pos + max 1 (length keyword)))
      else count_matches keyword s (Suc pos))"
  by pat_completeness auto
termination
  by (relation "measure (\<lambda>(keyword, s, pos). Suc (length s) - pos)") auto

declare count_matches.simps [simp del]

subsection \<open>\<open>_process_single_briefing\<close> and \<open>process_briefings\<close>\<close>

text \<open>
  The result dictionary. \<open>keyword_counts\<close> keeps its insertion order. A score that
  Python holds as the int \<open>0\<close> is the float zero here, which it equals.
\<close>

record score_result =
  briefing_id :: pyval
  date :: pyval
  briefing_text_snippet :: string
  key_metrics :: "pyfloat option"
  avg_key_metric :: pyfloat
  keyword_counts :: "(string \<times> nat) list"
  total_keyword_frequency :: nat
  word_count :: nat
  normalized_keyword_score :: pyfloat
  unique_keywords_found :: nat
  diversity_score :: pyfloat
  composite_thematic_score :: pyfloat
  thematic_intensity :: string
  recommendation :: string

text \<open>Lines 193 to 197, on the text of the briefing.\<close>

definition count_keywords :: "string \<Rightarrow> (string \<times> nat) list" where
  "count_keywords briefing_text =
     map (\<lambda>keyword. (keyword, count_matches keyword (py_lower briefing_text) 0))
       expected_keywords"

text \<open>Line 186.\<close>

definition optional_key_metrics :: "raw_record \<Rightarrow> py_exception + pyfloat option" where
  "optional_key_metrics record =
     (if field_given record ''key_metrics'' then
        (case float_key_metrics record of Inl e \<Rightarrow> Inl e | Inr f \<Rightarrow> Inr (Some f))
      else Inr None)"

text \<open>Line 203.\<close>

definition normalized_score :: "nat \<Rightarrow> nat \<Rightarrow> py_exception + pyfloat" where
  "normalized_score total_freq words =
     (if 0 < words then int_truediv (int total_freq) (int words) else Inr (Fin 0))"

text \<open>Lines 189 to 238, for a text that is a string.\<close>

definition score_text ::
  "pyval \<Rightarrow> pyval \<Rightarrow> string \<Rightarrow> pyfloat option \<Rightarrow> pyfloat \<Rightarrow> py_exception + score_result" where
  "score_text bid dt briefing_text km avg =
     (let words = length (py_split briefing_text);
          counts = count_keywords briefing_text;
          total_freq = sum_list (map snd counts)
      in case normalized_score total_freq words of
           Inl e \<Rightarrow> Inl e
         | Inr normalized \<Rightarrow>
             (let uniq = length (filter (\<lambda>(keyword, count). 0 < count) counts)
              in case int_truediv (int uniq) (int (length expected_keywords)) of
                   Inl e \<Rightarrow> Inl e
                 | Inr ratio \<Rightarrow>
                     (let diversity = fmul ratio (Fin 100);
                          composite = fadd (fmul normalized (Fin 50)) (fmul diversity (Fin (1 / 2)));
                          high = (fgt composite (Fin 30) \<and> fgt normalized (fl (1 / 50)))
                      in Inr \<lparr> briefing_id = bid,
                               date = dt,
                               briefing_text_snippet =
                                 (if 100 < length briefing_text
                                  then take 100 briefing_text @ ''...'' else briefing_text),
                               key_metrics = km,
                               avg_key_metric = avg,
                               keyword_counts = counts,
                               total_keyword_frequency = total_freq,
                               word_count = words,
                               normalized_keyword_score = normalized,
                               unique_keywords_found = uniq,
                               diversity_score = diversity,
                               composite_thematic_score = composite,
                               thematic_intensity = (if high then ''High'' else ''Moderate''),
                               recommendation =
                                 (if high then ''Focus on strategic growth and risk mitigation.''
                                  else ''Review the investor briefing for additional insights.'') \<rparr>)))"

text \<open>
  Lines 183 to 189: the lookups raise \<open>KeyError\<close> on an absent key, and \<open>split\<close> exists
  on strings only.
\<close>

definition process_single_briefing :: "raw_record \<Rightarrow> pyfloat \<Rightarrow> py_exception + score_result" where
  "process_single_briefing record avg =
     (case getitem record ''briefing_id'' of
        Inl e \<Rightarrow> Inl e
      | Inr bid \<Rightarrow>
     (case getitem record ''date'' of
        Inl e \<Rightarrow> Inl e
      | Inr dt \<Rightarrow>
     (case getitem record ''briefing_text'' of
        Inl e \<Rightarrow> Inl e
      | Inr txt \<Rightarrow>
     (case optional_key_metrics record of
        Inl e \<Rightarrow> Inl e
      | Inr km \<Rightarrow>
     (case txt of
        PStr briefing_text \<Rightarrow> score_text bid dt briefing_text km avg
      | _ \<Rightarrow> Inl (AttributeError (quoted (type_name txt) @ '' object has no attribute ''
                                 @ quoted ''split'')))))))"

text \<open>
  Line 169: \<open>sum(float(r["key_metrics"]) for r in ...)\<close>, starting from \<open>0\<close> and adding
  from left to right, each addition rounded. (From Python 3.12 on \<open>sum\<close> compensates
  the rounding errors of float additions; the two agree whenever the partial sums are
  exact, as for the integer metrics of the examples.)
\<close>

fun sum_key_metrics :: "pyfloat \<Rightarrow> raw_record list \<Rightarrow> py_exception + pyfloat" where
  "sum_key_metrics acc [] = Inr acc"
| "sum_key_metrics acc (r # rs) =
     (case float_key_metrics r of
        Inl e \<Rightarrow> Inl e
      | Inr f \<Rightarrow> sum_key_metrics (fadd acc f) rs)"

text \<open>Lines 165 to 170.\<close>

definition average_key_metric :: "raw_record list \<Rightarrow> py_exception + pyfloat" where
  "average_key_metric records =
     (let records_with_key_metrics = filter (\<lambda>r. field_given r ''key_metrics'') records
      in if records_with_key_metrics \<noteq> [] then
           (case sum_key_metrics (Fin 0) records_with_key_metrics of
              Inl e \<Rightarrow> Inl e
            | Inr sum_km \<Rightarrow>
                (case float_of_int (int (length records_with_key_metrics)) of
                   Inl e \<Rightarrow> Inl e
                 | Inr n \<Rightarrow> fdiv sum_km n))
         else Inr (Fin 0))"

text \<open>Lines 172 to 175.\<close>

fun process_all :: "pyfloat \<Rightarrow> raw_record list \<Rightarrow> py_exception + score_result list" where
  "process_all avg [] = Inr []"
| "process_all avg (record # records) =
     (case process_single_briefing record avg of
        Inl e \<Rightarrow> Inl e
      | Inr result \<Rightarrow>
          (case process_all avg records of
             Inl e \<Rightarrow> Inl e
           | Inr results \<Rightarrow> Inr (result # results)))"

definition score_results :: "raw_record list \<Rightarrow> py_exception + score_result list" where
  "score_results records =
     (case average_key_metric records of
        Inl e \<Rightarrow> Inl e
      | Inr avg \<Rightarrow> process_all avg records)"

text \<open>
  \<open>process_briefings\<close> hands the results to \<open>_generate_final_report\<close>, which only formats
  them; the formatter is a parameter.
\<close>

definition process_briefings ::
  "(score_result list \<Rightarrow> string) \<Rightarrow> raw_record list \<Rightarrow> py_exception + string" where
  "process_briefings generate_final_report records =
     (case score_results records of
        Inl e \<Rightarrow> Inl e
      | Inr results \<Rightarrow> Inr (generate_final_report results))"

text \<open>
  Lines 385 to 390 of \<open>main\<close>: validate, print the validation report, and score only
  when the batch is valid. The result is the validation report and, when the scorer
  ran, what it returned or raised.
\<close>

definition main_flow ::
  "(string \<Rightarrow> py_exception + raw_record list) \<Rightarrow> (string \<Rightarrow> py_exception + raw_record list)
     \<Rightarrow> (score_result list \<Rightarrow> string) \<Rightarrow> string \<Rightarrow> string
     \<Rightarrow> string \<times> (py_exception + string) option" where
  "main_flow parse_json parse_csv generate_final_report data_str data_format =
     (case validate_data parse_json parse_csv data_str data_format of
        (is_valid, records, validation_report, errors) \<Rightarrow>
          (validation_report,
           if is_valid then Some (process_briefings generate_final_report records) else None))"

section \<open>Notions of the specification\<close>

text \<open>
  The three numbers a string of the shape \<open>dddd-dd-dd\<close> denotes; the string is a real
  calendar date when they satisfy \<open>calendar_date\<close>.
\<close>

definition date_fields :: "string \<Rightarrow> nat \<times> nat \<times> nat" where
  "date_fields s =
     (nat_of_digits (take 4 s), nat_of_digits (take 2 (drop 5 s)),
      nat_of_digits (take 2 (drop 8 s)))"

text \<open>
  A whole-word occurrence of a keyword at position \<open>i\<close> of a text: the keyword stands
  there, and neither the character before it nor the one after it is a word
  character. \<open>whole_word_count\<close> counts the positions with such an occurrence.
\<close>

definition whole_word_at :: "string \<Rightarrow> string \<Rightarrow> nat \<Rightarrow> bool" where
  "whole_word_at keyword s i =
     (i + length keyword \<le> length s
      \<and> (\<forall>j \<in> {0..<length keyword}. s ! (i + j) = keyword ! j)
      \<and> (i = 0 \<or> \<not> is_word_char (s ! (i - 1)))
      \<and> (i + length keyword = length s \<or> \<not> is_word_char (s ! (i + length keyword))))"

definition whole_word_count :: "string \<Rightarrow> string \<Rightarrow> nat" where
  "whole_word_count keyword s = length (filter (whole_word_at keyword s) [0..<length s])"

section \<open>The rounding function\<close>

text \<open>
  Two properties of the model of binary64 rounding: \<open>floor_log2\<close> finds the binade
  of a positive rational, and a finite result of \<open>fl\<close> is within half a unit in the
  last place of its argument.
\<close>

lemma pow2_powi: "pow2 k = 2 powi k"
  by (simp add: pow2_def power_int_def field_simps)

lemma pow2_pos: "0 < pow2 k"
  by (simp add: pow2_powi)

lemma floor_log2_bounds:
  assumes "0 < q"
  shows "pow2 (floor_log2 q) \<le> q \<and> q < pow2 (floor_log2 q + 1)"
proof -
  obtain a b where ab: "quotient_of q = (a, b)" by (cases "quotient_of q") auto
  then have b: "0 < b" using quotient_of_denom_pos by blast
  from ab have q: "q = of_int a / of_int b" by (rule quotient_of_div)
  with assms b have a: "0 < a" by (simp add: zero_less_divide_iff)
  let ?ka = "bitlen a" and ?kb = "bitlen b"
  from bitlen_bounds[OF a] have a1: "2 ^ nat (?ka - 1) \<le> a" and a2: "a < 2 ^ nat ?ka" by auto
  from bitlen_bounds[OF b] have b1: "2 ^ nat (?kb - 1) \<le> b" and b2: "b < 2 ^ nat ?kb" by auto
  have ka: "0 < ?ka" using a bitlen_eq_zero_iff[of a] bitlen_nonneg[of a] by linarith
  have kb: "0 < ?kb" using b bitlen_eq_zero_iff[of b] bitlen_nonneg[of b] by linarith
  have ra1: "(2::rat) powi (?ka - 1) \<le> of_int a"
  proof -
    have "(2::rat) powi (?ka - 1) = of_int (2 ^ nat (?ka - 1))"
      using ka by (simp add: power_int_def)
    also have "\<dots> \<le> of_int a" using a1 by (simp only: of_int_le_iff)
    finally show ?thesis .
  qed
  have ra2: "of_int a < (2::rat) powi ?ka"
  proof -
    have "(of_int a :: rat) < of_int (2 ^ nat ?ka)" using a2 by (simp only: of_int_less_iff)
    also have "\<dots> = 2 powi ?ka" using ka by (simp add: power_int_def)
    finally show ?thesis .
  qed
  have rb1: "(2::rat) powi (?kb - 1) \<le> of_int b"
  proof -
    have "(2::rat) powi (?kb - 1) = of_int (2 ^ nat (?kb - 1))"
      using kb by (simp add: power_int_def)
    also have "\<dots> \<le> of_int b" using b1 by (simp only: of_int_le_iff)
    finally show ?thesis .
  qed
  have rb2: "of_int b < (2::rat) powi ?kb"
  proof -
    have "(of_int b :: rat) < of_int (2 ^ nat ?kb)" using b2 by (simp only: of_int_less_iff)
    also have "\<dots> = 2 powi ?kb" using kb by (simp add: power_int_def)
    finally show ?thesis .
  qed
  have rb: "(0::rat) < of_int b" using b by simp
  let ?d = "?ka - ?kb"
  have up: "q < 2 powi (?d + 1)"
  proof -
    have "q * of_int b = of_int a" using q rb by simp
    also have "\<dots> < 2 powi ?ka" by (rule ra2)
    also have "\<dots> = 2 powi (?d + 1) * 2 powi (?kb - 1)"
      by (simp add: power_int_add[symmetric])
    also have "\<dots> \<le> 2 powi (?d + 1) * of_int b"
      by (intro mult_left_mono rb1) simp
    finally show ?thesis using rb by simp
  qed
  have lo: "2 powi (?d - 1) \<le> q"
  proof -
    have "(2::rat) powi (?d - 1) * of_int b \<le> 2 powi (?d - 1) * 2 powi ?kb"
      by (intro mult_left_mono less_imp_le[OF rb2]) simp
    also have "\<dots> = 2 powi (?ka - 1)" by (simp add: power_int_add[symmetric])
    also have "\<dots> \<le> of_int a" by (rule ra1)
    also have "\<dots> = q * of_int b" using q rb by simp
    finally show ?thesis using rb by simp
  qed
  show ?thesis
  proof (cases "pow2 ?d \<le> q")
    case True
    then have "floor_log2 q = ?d" by (simp add: floor_log2_def ab)
    with True up show ?thesis by (simp add: pow2_powi)
  next
    case False
    then have "floor_log2 q = ?d - 1" by (simp add: floor_log2_def ab)
    with False lo show ?thesis by (simp add: pow2_powi)
  qed
qed


lemma round_half_even_nearest: "\<bar>of_int (round_half_even x) - x\<bar> \<le> 1 / 2"
proof -
  have "of_int \<lfloor>x\<rfloor> \<le> x" "x < of_int \<lfloor>x\<rfloor> + 1" by linarith+
  then show ?thesis
    by (auto simp: round_half_even_def Let_def abs_le_iff)
qed

lemma fl_half_ulp:
  assumes "fl q = Fin r"
  shows "\<bar>r - q\<bar> \<le> pow2 (max (floor_log2 \<bar>q\<bar>) (- 1022) - 53)"
proof (cases "q = 0")
  case True
  with assms have "r = 0" by (simp add: fl_def)
  with True pow2_pos[of "max (floor_log2 \<bar>q\<bar>) (- 1022) - 53"] show ?thesis by simp
next
  case False
  let ?e = "max (floor_log2 \<bar>q\<bar>) (- 1022)"
  let ?u = "pow2 (?e - 52)"
  let ?m = "round_half_even (q / ?u)"
  have u: "0 < ?u" by (rule pow2_pos)
  from assms False have r: "r = of_int ?m * ?u"
    by (simp add: fl_def Let_def split: if_splits)
  have "r - q = (of_int ?m - q / ?u) * ?u" using u by (simp add: r field_simps)
  then have "\<bar>r - q\<bar> = \<bar>of_int ?m - q / ?u\<bar> * ?u" using u by (simp add: abs_mult)
  also have "\<dots> \<le> (1 / 2) * ?u"
    using round_half_even_nearest[of "q / ?u"] u by (intro mult_right_mono) simp_all
  also have "\<dots> = pow2 (?e - 53)"
  proof -
    have "?e - 52 = (?e - 53) + 1" by simp
    moreover have "(2::rat) powi ((?e - 53) + 1) = 2 powi (?e - 53) * 2 powi 1"
      by (rule power_int_add) simp
    ultimately have "(2::rat) powi (?e - 52) = 2 powi (?e - 53) * 2"
      by simp
    then show ?thesis by (simp add: pow2_powi)
  qed
  finally show ?thesis .
qed

section \<open>Date validation\<close>

lemma char_eq_code: "(c = d) = ((of_char c :: nat) = of_char d)"
  by simp

lemma month_field:
  assumes "is_digit a" "is_digit b"
  shows "(case take_month (a # b # rest) of
            None \<Rightarrow> None
          | Some (m, r) \<Rightarrow> (case take_hyphen r of None \<Rightarrow> None | Some r' \<Rightarrow> Some (m, r')))
         = (if 1 \<le> nat_of_digits [a, b] \<and> nat_of_digits [a, b] \<le> 12
            then (case take_hyphen rest of
                    None \<Rightarrow> None
                  | Some r' \<Rightarrow> Some (nat_of_digits [a, b], r'))
            else None)"
  using assms
  unfolding take_month_def take_hyphen_def is_digit_def nat_of_digits_def digit_val_def Let_def
  by (auto simp: char_eq_code[of a] char_eq_code[of b] split: list.splits)

lemma day_field:
  assumes "is_digit a" "is_digit b"
  shows "(case take_day (a # b # rest) of
            None \<Rightarrow> None
          | Some (d, r) \<Rightarrow> if r = [] then Some d else None)
         = (if rest = [] \<and> 1 \<le> nat_of_digits [a, b] \<and> nat_of_digits [a, b] \<le> 31
            then Some (nat_of_digits [a, b]) else None)"
  using assms
  unfolding take_day_def is_digit_def nat_of_digits_def digit_val_def Let_def
  by (auto simp: char_eq_code[of a] char_eq_code[of b] split: list.splits)

lemma days_in_month_le: "days_in_month y m \<le> 31"
  by (simp add: days_in_month_def)

lemma strptime_explicit:
  assumes "is_digit a" "is_digit b" "is_digit c" "is_digit d"
      "is_digit e" "is_digit f" "is_digit g" "is_digit h"
  shows "strptime_ymd (a # b # c # d # CHR ''-'' # e # f # CHR ''-'' # g # h # rest) =
     (if rest = [] \<and> calendar_date (nat_of_digits [a, b, c, d]) (nat_of_digits [e, f])
                        (nat_of_digits [g, h])
      then Some (nat_of_digits [a, b, c, d], nat_of_digits [e, f], nat_of_digits [g, h])
      else None)"
proof -
  let ?m = "nat_of_digits [e, f]" and ?d = "nat_of_digits [g, h]"
    and ?y = "nat_of_digits [a, b, c, d]"
  have yr: "take_year (a # b # c # d # CHR ''-'' # e # f # CHR ''-'' # g # h # rest)
              = Some (?y, CHR ''-'' # e # f # CHR ''-'' # g # h # rest)"
    using assms by (simp add: take_year_def)
  have hy: "\<And>r. take_hyphen (CHR ''-'' # r) = Some r"
    by (simp add: take_hyphen_def)
  note mf = month_field[OF assms(5,6), of "CHR ''-'' # g # h # rest"]
  note df = day_field[OF assms(7,8), of rest]
  show ?thesis
  proof (cases "1 \<le> ?m \<and> ?m \<le> 12")
    case False
    with mf show ?thesis
      by (auto simp: strptime_ymd_def yr hy calendar_date_def split: option.splits)
  next
    case True
    with mf have "take_month (e # f # CHR ''-'' # g # h # rest) \<noteq> None"
      by (auto simp: hy split: option.splits)
    then obtain m r where tm: "take_month (e # f # CHR ''-'' # g # h # rest) = Some (m, r)"
      by auto
    with mf True have "take_hyphen r = Some (g # h # rest) \<and> m = ?m"
      by (auto simp: hy split: option.splits)
    then show ?thesis
      using df True days_in_month_le[of ?y ?m]
      by (auto simp: strptime_ymd_def yr hy tm calendar_date_def
               split: option.splits if_splits)
  qed
qed

lemma date_shape_explicit:
  "date_shape s \<longleftrightarrow>
     (\<exists>a b c d e f g h. s = [a, b, c, d, CHR ''-'', e, f, CHR ''-'', g, h]
        \<and> is_digit a \<and> is_digit b \<and> is_digit c \<and> is_digit d
        \<and> is_digit e \<and> is_digit f \<and> is_digit g \<and> is_digit h)"
  (is "?L \<longleftrightarrow> ?R")
proof
  assume ?L
  then have len: "length s = 10" by (simp add: date_shape_def)
  then obtain a b c d x e f y g h where s: "s = [a, b, c, d, x, e, f, y, g, h]"
    by (auto simp: eval_nat_numeral length_Suc_conv)
  with \<open>?L\<close> show ?R by (auto simp: date_shape_def)
next
  assume ?R
  then show ?L by (auto simp: date_shape_def)
qed

lemma strptime_date_shape:
  assumes "date_shape s"
  shows "strptime_ymd s =
     (case date_fields s of (y, m, d) \<Rightarrow> if calendar_date y m d then Some (y, m, d) else None)"
proof -
  from assms obtain a b c d e f g h where
    s: "s = [a, b, c, d, CHR ''-'', e, f, CHR ''-'', g, h]"
    and dg: "is_digit a" "is_digit b" "is_digit c" "is_digit d"
            "is_digit e" "is_digit f" "is_digit g" "is_digit h"
    unfolding date_shape_explicit by blast
  show ?thesis
    unfolding s strptime_explicit[OF dg] by (simp add: date_fields_def)
qed

lemma strptime_trailing_newline:
  assumes "length s = 11" "date_shape (take 10 s)"
  shows "strptime_ymd s = None"
proof -
  from assms(2) obtain a b c d e f g h where
    t: "take 10 s = [a, b, c, d, CHR ''-'', e, f, CHR ''-'', g, h]"
    and dg: "is_digit a" "is_digit b" "is_digit c" "is_digit d"
            "is_digit e" "is_digit f" "is_digit g" "is_digit h"
    unfolding date_shape_explicit by blast
  have "s = take 10 s @ drop 10 s" by simp
  moreover from assms(1) have "drop 10 s \<noteq> []" by simp
  ultimately obtain rest where
    "s = a # b # c # d # CHR ''-'' # e # f # CHR ''-'' # g # h # rest" "rest \<noteq> []"
    unfolding t by (metis append_Cons append_Nil)
  then show ?thesis
    by (simp add: strptime_explicit[OF dg])
qed

lemma is_valid_date_layers:
  "is_valid_date (PStr s) = Inr (date_pattern_matches s \<and> strptime_ymd s \<noteq> None)"
  by (simp split: option.splits)

lemma is_valid_date_calendar:
  "is_valid_date (PStr s) =
     Inr (date_shape s \<and> (case date_fields s of (y, m, d) \<Rightarrow> calendar_date y m d))"
proof (cases "date_shape s")
  case True
  then show ?thesis
    by (simp add: date_pattern_matches_def strptime_date_shape split: prod.splits)
next
  case False
  then show ?thesis
    using strptime_trailing_newline[of s]
    by (auto simp: date_pattern_matches_def split: option.splits)
qed

lemma check_date_str:
  "record ''date'' = Some (PStr s) \<Longrightarrow>
   check_date i record =
     Inr (if date_pattern_matches s \<and> strptime_ymd s \<noteq> None then [] else [Invalid_date i])"
  by (simp add: check_date_def getitem_def split: option.splits)

lemma check_key_metrics_cases:
  "check_key_metrics i record = Inr ds \<Longrightarrow>
   ds = [] \<or> ds = [Nonpositive_key_metrics i] \<or> ds = [Nonnumeric_key_metrics i]"
  by (auto simp: check_key_metrics_def split: if_splits sum.splits py_exception.splits)

text \<open>
  Claim C8. \<open>_is_valid_date\<close> is a check in two layers: the string has to match the
  pattern \<open>^\d{4}-\d{2}-\d{2}$\<close> and then \<open>strptime\<close> has to accept it; together the
  two layers accept exactly the strings of the shape \<open>dddd-dd-dd\<close> that denote a real
  calendar date. In a record with its required fields and a string date, the validator
  emits the date diagnostic, of class \<open>invalid_format\<close>, exactly when one of the layers
  fails. \<open>2023-07-11\<close> is accepted; \<open>2023-13-01\<close> has the shape and is rejected;
  \<open>07-11-2023\<close> fails the pattern.
\<close>

theorem date_two_layers:
  "is_valid_date (PStr s) = Inr (date_pattern_matches s \<and> strptime_ymd s \<noteq> None)
   \<and> is_valid_date (PStr s)
       = Inr (date_shape s \<and> (case date_fields s of (y, m, d) \<Rightarrow> calendar_date y m d))
   \<and> (missing_fields record = [] \<and> record ''date'' = Some (PStr s)
        \<and> validate_record i record = Inr ds
      \<longrightarrow> (Invalid_date i \<in> set ds) = (\<not> (date_pattern_matches s \<and> strptime_ymd s \<noteq> None)))
   \<and> classify (Invalid_date i) = invalid_format
   \<and> is_valid_date (PStr ''2023-07-11'') = Inr True
   \<and> is_valid_date (PStr ''2023-13-01'') = Inr False
   \<and> date_pattern_matches ''2023-13-01''
   \<and> is_valid_date (PStr ''07-11-2023'') = Inr False
   \<and> \<not> date_pattern_matches ''07-11-2023''"
proof -
  have a: "is_valid_date (PStr ''2023-07-11'') = Inr True" by code_simp
  have b: "is_valid_date (PStr ''2023-13-01'') = Inr False" by code_simp
  have c: "date_pattern_matches ''2023-13-01''" by code_simp
  have d: "is_valid_date (PStr ''07-11-2023'') = Inr False" by code_simp
  have e: "\<not> date_pattern_matches ''07-11-2023''" by code_simp
  have f: "missing_fields record = [] \<and> record ''date'' = Some (PStr s)
        \<and> validate_record i record = Inr ds
      \<longrightarrow> (Invalid_date i \<in> set ds) = (\<not> (date_pattern_matches s \<and> strptime_ymd s \<noteq> None))"
  proof (intro impI, elim conjE)
    assume mf: "missing_fields record = []" and dt: "record ''date'' = Some (PStr s)"
      and vr: "validate_record i record = Inr ds"
    have cd: "check_date i record =
        Inr (if date_pattern_matches s \<and> strptime_ymd s \<noteq> None then [] else [Invalid_date i])"
      using dt by (rule check_date_str)
    from mf vr obtain ds2 where
      ds: "ds = (if date_pattern_matches s \<and> strptime_ymd s \<noteq> None then []
                 else [Invalid_date i]) @ ds2"
      and km: "check_key_metrics i record = Inr ds2"
      by (auto simp: validate_record_def cd split: sum.splits)
    from check_key_metrics_cases[OF km]
    show "(Invalid_date i \<in> set ds)
            = (\<not> (date_pattern_matches s \<and> strptime_ymd s \<noteq> None))"
      unfolding ds by auto
  qed
  have g: "classify (Invalid_date i) = invalid_format" by simp
  show ?thesis
    by (intro conjI) (fact is_valid_date_layers is_valid_date_calendar f g a b c d e)+
qed

theorem date_two_layers_witness:
  "missing_fields [''briefing_id'' \<mapsto> PStr ''B1'', ''date'' \<mapsto> PStr ''2023-02-30'',
                   ''briefing_text'' \<mapsto> PStr ''growth''] = []
   \<and> validate_record 1 [''briefing_id'' \<mapsto> PStr ''B1'', ''date'' \<mapsto> PStr ''2023-02-30'',
                   ''briefing_text'' \<mapsto> PStr ''growth''] = Inr [Invalid_date 1]
   \<and> date_pattern_matches ''2023-02-30''
   \<and> strptime_ymd ''2023-02-30'' = None"
proof -
  let ?r = "[''briefing_id'' \<mapsto> PStr ''B1'', ''date'' \<mapsto> PStr ''2023-02-30'',
             ''briefing_text'' \<mapsto> PStr ''growth'']"
  have m: "missing_fields ?r = []"
    by (simp add: missing_fields_def required_fields_def field_given_def)
  have p: "date_pattern_matches ''2023-02-30''" by code_simp
  have q: "strptime_ymd ''2023-02-30'' = None" by code_simp
  have v: "validate_record 1 ?r = Inr [Invalid_date 1]"
    by (simp add: validate_record_def m check_date_str p q check_key_metrics_def field_given_def)
  from date_two_layers[of "''2023-02-30''" ?r 1 "[Invalid_date 1]"] m p q v
  show ?thesis by simp
qed

section \<open>The validator's loop\<close>

lemma validate_record_missing:
  "missing_fields record \<noteq> [] \<Longrightarrow>
   validate_record i record = Inr [Missing_fields (missing_fields record) i]"
  by (simp add: validate_record_def)

lemma check_date_cases:
  "check_date i record = Inr ds \<Longrightarrow> ds = [] \<or> ds = [Invalid_date i]"
  by (auto simp: check_date_def split: sum.splits if_splits)

lemma validate_record_complete:
  assumes "missing_fields record = []" "validate_record i record = Inr ds"
  shows "\<exists>ds1 ds2. ds = ds1 @ ds2 \<and> check_date i record = Inr ds1
           \<and> check_key_metrics i record = Inr ds2"
  using assms by (auto simp: validate_record_def split: sum.splits)

lemma validate_record_index:
  assumes "validate_record i record = Inr ds" "d \<in> set ds"
  shows "diag_record d = i"
proof (cases "missing_fields record = []")
  case False
  with assms show ?thesis by (auto simp: validate_record_def)
next
  case True
  from validate_record_complete[OF True assms(1)] obtain ds1 ds2 where
    "ds = ds1 @ ds2" "check_date i record = Inr ds1" "check_key_metrics i record = Inr ds2"
    by blast
  with check_date_cases[of i "record" ds1] check_key_metrics_cases[of i "record" ds2] assms(2)
  show ?thesis by auto
qed

lemma validate_records_nth:
  "validate_records i records = Inr ds \<Longrightarrow> k < length records \<Longrightarrow>
   validate_record (i + k) (records ! k) = Inr (filter (\<lambda>d. diag_record d = i + k) ds)"
proof (induction records arbitrary: i k ds)
  case Nil
  then show ?case by simp
next
  case (Cons r rs)
  from Cons.prems(1) obtain d1 d2 where
    r: "validate_record i r = Inr d1" and rs: "validate_records (Suc i) rs = Inr d2"
    and ds: "ds = d1 @ d2"
    by (auto split: sum.splits)
  have later: "diag_record d \<noteq> i" if "d \<in> set d2" for d
  proof -
    have "\<exists>j. Suc i \<le> j \<and> diag_record d = j" using rs that
    proof (induction rs arbitrary: i d2)
      case Nil
      then show ?case by simp
    next
      case (Cons a as)
      from Cons.prems(1) obtain e1 e2 where
        a: "validate_record (Suc i) a = Inr e1" and as: "validate_records (Suc (Suc i)) as = Inr e2"
        and d2: "d2 = e1 @ e2"
        by (auto split: sum.splits)
      from Cons.prems(2) d2 consider "d \<in> set e1" | "d \<in> set e2" by auto
      then show ?case
      proof cases
        case 1
        with validate_record_index[OF a] show ?thesis by auto
      next
        case 2
        from Cons.IH[OF as 2] show ?thesis by auto
      qed
    qed
    then show ?thesis by auto
  qed
  show ?case
  proof (cases k)
    case 0
    have "filter (\<lambda>d. diag_record d = i) d1 = d1"
      using validate_record_index[OF r] by (simp add: filter_id_conv)
    moreover have "filter (\<lambda>d. diag_record d = i) d2 = []"
      using later by (simp add: filter_empty_conv)
    ultimately show ?thesis using 0 r ds by simp
  next
    case (Suc k')
    with Cons.prems(2) have k': "k' < length rs" by simp
    from Cons.IH[OF rs k'] have
      "validate_record (Suc i + k') (rs ! k') = Inr (filter (\<lambda>d. diag_record d = Suc i + k') d2)" .
    moreover have "filter (\<lambda>d. diag_record d = Suc i + k') d1 = []"
      using validate_record_index[OF r] by (auto simp: filter_empty_conv)
    ultimately show ?thesis using Suc ds by simp
  qed
qed

lemma validate_records_concat:
  "validate_records i records = Inr ds \<Longrightarrow>
   \<exists>dss. length dss = length records \<and> ds = concat dss
     \<and> (\<forall>k < length records. validate_record (i + k) (records ! k) = Inr (dss ! k))"
proof (induction records arbitrary: i ds)
  case Nil
  then show ?case by simp
next
  case (Cons r rs)
  from Cons.prems obtain d1 d2 where
    r: "validate_record i r = Inr d1" and rs: "validate_records (Suc i) rs = Inr d2"
    and ds: "ds = d1 @ d2"
    by (auto split: sum.splits)
  from Cons.IH[OF rs] obtain dss where
    len: "length dss = length rs" and cc: "d2 = concat dss"
    and nth: "\<forall>k < length rs. validate_record (Suc i + k) (rs ! k) = Inr (dss ! k)"
    by blast
  have "\<forall>k < length (r # rs). validate_record (i + k) ((r # rs) ! k) = Inr ((d1 # dss) ! k)"
  proof (intro allI impI)
    fix k assume "k < length (r # rs)"
    then show "validate_record (i + k) ((r # rs) ! k) = Inr ((d1 # dss) ! k)"
      using r nth by (cases k) auto
  qed
  with len cc ds show ?case
    by (intro exI[of _ "d1 # dss"]) simp
qed

lemma missing_fields_subset:
  "set (missing_fields record) \<subseteq> {''briefing_id'', ''date'', ''briefing_text''}"
  by (auto simp: missing_fields_def required_fields_def)

section \<open>Claims on the validator\<close>

text \<open>
  Claim C1, as stated, fails: a record without \<open>briefing_id\<close> and with the
  malformed date \<open>07-11-2023\<close> gets the single message about the missing field and
  no message about its date, because the loop of \<open>validate_data\<close> goes on to the next
  record (\<open>continue\<close>) as soon as a required field is missing.
\<close>

theorem missing_id_hides_malformed_date:
  "validate_records 1
     [[''date'' \<mapsto> PStr ''07-11-2023'', ''briefing_text'' \<mapsto> PStr ''Quarterly growth'']]
     = Inr [Missing_fields [''briefing_id''] 1]
   \<and> is_valid_date (PStr ''07-11-2023'') = Inr False
   \<and> map_sum id (snd \<circ> snd \<circ> snd) (validate_decoded
     [[''date'' \<mapsto> PStr ''07-11-2023'', ''briefing_text'' \<mapsto> PStr ''Quarterly growth'']])
     = Inr [''ERROR: Missing required field(s): briefing_id in record 1.'']"
  by code_simp

text \<open>
  Claim C1, amended. In a batch that \<open>validate_data\<close> checks to the end, a record with
  a required field missing or empty receives exactly one diagnostic, the one that
  lists its missing fields: its date and its \<open>key_metrics\<close> are not checked. The date
  is checked in the records that have all three required fields: such a record with a
  string date receives the date diagnostic exactly when \<open>_is_valid_date\<close> rejects it.
\<close>

theorem missing_field_suppresses_record_checks:
  assumes "validate_records i records = Inr ds" and "k < length records"
  shows "(missing_fields (records ! k) \<noteq> [] \<longrightarrow>
            filter (\<lambda>d. diag_record d = i + k) ds
              = [Missing_fields (missing_fields (records ! k)) (i + k)])
       \<and> (missing_fields (records ! k) = [] \<and> (records ! k) ''date'' = Some (PStr s) \<longrightarrow>
            (Invalid_date (i + k) \<in> set ds) = (is_valid_date (PStr s) = Inr False))"
proof (intro conjI impI)
  note nth = validate_records_nth[OF assms]
  {
    assume "missing_fields (records ! k) \<noteq> []"
    from validate_record_missing[OF this, of "i + k"] nth
    show "filter (\<lambda>d. diag_record d = i + k) ds
            = [Missing_fields (missing_fields (records ! k)) (i + k)]"
      by simp
  }
  {
    assume a: "missing_fields (records ! k) = [] \<and> (records ! k) ''date'' = Some (PStr s)"
    let ?ds = "filter (\<lambda>d. diag_record d = i + k) ds"
    from a have dt: "(records ! k) ''date'' = Some (PStr s)" by simp
    have cd: "check_date (i + k) (records ! k) =
        Inr (if date_pattern_matches s \<and> strptime_ymd s \<noteq> None then []
             else [Invalid_date (i + k)])"
      using dt by (rule check_date_str)
    from validate_record_complete[OF _ nth] a obtain ds1 ds2 where
      split: "?ds = ds1 @ ds2" and c1: "check_date (i + k) (records ! k) = Inr ds1"
      and c2: "check_key_metrics (i + k) (records ! k) = Inr ds2"
      by blast
    have "(Invalid_date (i + k) \<in> set ?ds) = (is_valid_date (PStr s) = Inr False)"
      using check_key_metrics_cases[OF c2] c1 cd
      unfolding split is_valid_date_layers by (auto split: if_splits)
    moreover have "(Invalid_date (i + k) \<in> set ?ds) = (Invalid_date (i + k) \<in> set ds)"
      by simp
    ultimately show "(Invalid_date (i + k) \<in> set ds) = (is_valid_date (PStr s) = Inr False)"
      by simp
  }
qed

theorem missing_field_suppresses_record_checks_witness:
  "validate_records 1
     [[''briefing_id'' \<mapsto> PStr ''B1'', ''date'' \<mapsto> PStr ''07-11-2023'',
       ''briefing_text'' \<mapsto> PStr ''Quarterly growth''],
      [''date'' \<mapsto> PStr ''07-11-2023'', ''briefing_text'' \<mapsto> PStr ''Quarterly growth'',
       ''key_metrics'' \<mapsto> PStr ''abc'']]
     = Inr [Invalid_date 1, Missing_fields [''briefing_id''] 2]
   \<and> filter (\<lambda>d. diag_record d = 2) [Invalid_date 1, Missing_fields [''briefing_id''] 2]
       = [Missing_fields [''briefing_id''] 2]
   \<and> Invalid_date 1 \<in> set [Invalid_date 1, Missing_fields [''briefing_id''] 2]
   \<and> is_valid_date (PStr ''07-11-2023'') = Inr False"
proof -
  let ?r1 = "[''briefing_id'' \<mapsto> PStr ''B1'', ''date'' \<mapsto> PStr ''07-11-2023'',
       ''briefing_text'' \<mapsto> PStr ''Quarterly growth'']"
  let ?r2 = "[''date'' \<mapsto> PStr ''07-11-2023'', ''briefing_text'' \<mapsto> PStr ''Quarterly growth'',
       ''key_metrics'' \<mapsto> PStr ''abc'']"
  let ?ds = "[Invalid_date 1, Missing_fields [''briefing_id''] 2]"
  have v: "validate_records 1 [?r1, ?r2] = Inr ?ds" by code_simp
  have m1: "missing_fields ?r1 = []" by code_simp
  have m2: "missing_fields ?r2 = [''briefing_id'']" by code_simp
  have d: "is_valid_date (PStr ''07-11-2023'') = Inr False" by code_simp
  from missing_field_suppresses_record_checks[OF v, of 1 "''07-11-2023''"]
       missing_field_suppresses_record_checks[OF v, of 0 "''07-11-2023''"] m1 m2 v d
  show ?thesis by simp
qed



lemma float_key_metrics_string:
  "r ''key_metrics'' = Some (PStr k) \<Longrightarrow>
   float_key_metrics r =
     (case parse_float k of
        None \<Rightarrow> Inl (ValueError (''could not convert string to float: '' @ py_repr k))
      | Some f \<Rightarrow> Inr f)"
  by (simp add: float_key_metrics_def getitem_def)



text \<open>
  Claim C9. The diagnostics of a batch are the diagnostics of its records, one record
  after the other in the order of the batch, each carrying the index of its record.
  Those of one record are either the single \<open>missing_field\<close> diagnostic, which lists
  all missing fields in the order \<open>briefing_id\<close>, \<open>date\<close>, \<open>briefing_text\<close> and
  whose message joins them with a comma and a space, or the diagnostic of the date
  check, if any, followed by the diagnostic of the \<open>key_metrics\<close> check, if any.
  The messages \<open>validate_data\<close> returns are the texts of these diagnostics, in the
  same order.
\<close>

theorem diagnostics_order:
  assumes "validate_records i records = Inr ds"
  shows "\<exists>dss. length dss = length records \<and> ds = concat dss
     \<and> (\<forall>k < length records.
          (\<forall>d \<in> set (dss ! k). diag_record d = i + k)
          \<and> ((missing_fields (records ! k) \<noteq> []
               \<and> dss ! k = [Missing_fields (missing_fields (records ! k)) (i + k)])
              \<or> (missing_fields (records ! k) = []
                  \<and> (\<exists>ds1 ds2. dss ! k = ds1 @ ds2
                        \<and> check_date (i + k) (records ! k) = Inr ds1
                        \<and> (ds1 = [] \<or> ds1 = [Invalid_date (i + k)])
                        \<and> check_key_metrics (i + k) (records ! k) = Inr ds2
                        \<and> (ds2 = [] \<or> ds2 = [Nonpositive_key_metrics (i + k)]
                             \<or> ds2 = [Nonnumeric_key_metrics (i + k)])))))
     \<and> (\<forall>r. missing_fields r
            = filter (\<lambda>field. \<not> field_given r field) [''briefing_id'', ''date'', ''briefing_text''])
     \<and> (\<forall>fs j. error_text (Missing_fields fs j)
            = ''ERROR: Missing required field(s): '' @ join '', '' fs @ '' in record ''
                @ str_of_nat j @ ''.'')
     \<and> (\<forall>is_valid records' report errors.
          i = 1 \<and> validate_decoded records = Inr (is_valid, records', report, errors)
          \<longrightarrow> errors = map error_text ds)"
proof -
  from validate_records_concat[OF assms] obtain dss where
    len: "length dss = length records" and cc: "ds = concat dss"
    and nth: "\<forall>k < length records. validate_record (i + k) (records ! k) = Inr (dss ! k)"
    by blast
  have shape: "(\<forall>d \<in> set (dss ! k). diag_record d = i + k)
          \<and> ((missing_fields (records ! k) \<noteq> []
               \<and> dss ! k = [Missing_fields (missing_fields (records ! k)) (i + k)])
              \<or> (missing_fields (records ! k) = []
                  \<and> (\<exists>ds1 ds2. dss ! k = ds1 @ ds2
                        \<and> check_date (i + k) (records ! k) = Inr ds1
                        \<and> (ds1 = [] \<or> ds1 = [Invalid_date (i + k)])
                        \<and> check_key_metrics (i + k) (records ! k) = Inr ds2
                        \<and> (ds2 = [] \<or> ds2 = [Nonpositive_key_metrics (i + k)]
                             \<or> ds2 = [Nonnumeric_key_metrics (i + k)]))))"
    if k: "k < length records" for k
  proof -
    from nth k have v: "validate_record (i + k) (records ! k) = Inr (dss ! k)" by simp
    have idx: "\<forall>d \<in> set (dss ! k). diag_record d = i + k"
      using validate_record_index[OF v] by blast
    show ?thesis
    proof (cases "missing_fields (records ! k) = []")
      case False
      with validate_record_missing[OF False, of "i + k"] v idx show ?thesis by simp
    next
      case True
      from validate_record_complete[OF True v] obtain ds1 ds2 where
        sp: "dss ! k = ds1 @ ds2" and c1: "check_date (i + k) (records ! k) = Inr ds1"
        and c2: "check_key_metrics (i + k) (records ! k) = Inr ds2"
        by blast
      from check_date_cases[OF c1] check_key_metrics_cases[OF c2] sp c1 c2 True idx
      show ?thesis by blast
    qed
  qed
  have mf: "\<forall>r. missing_fields r
            = filter (\<lambda>field. \<not> field_given r field) [''briefing_id'', ''date'', ''briefing_text'']"
    by (simp add: missing_fields_def required_fields_def)
  have et: "\<forall>fs j. error_text (Missing_fields fs j)
            = ''ERROR: Missing required field(s): '' @ join '', '' fs @ '' in record ''
                @ str_of_nat j @ ''.''"
    by simp
  have lk: "\<forall>is_valid records' report errors.
          i = 1 \<and> validate_decoded records = Inr (is_valid, records', report, errors)
          \<longrightarrow> errors = map error_text ds"
    using assms by (auto simp: validate_decoded_def Let_def split: sum.splits)
  from len cc shape mf et lk show ?thesis by blast
qed


theorem diagnostics_order_witness:
  "validate_records 1
     [[''briefing_id'' \<mapsto> PStr ''B1'', ''date'' \<mapsto> PStr ''2023-13-01'',
       ''briefing_text'' \<mapsto> PStr ''Quarterly growth'', ''key_metrics'' \<mapsto> PStr ''-5''],
      [''briefing_id'' \<mapsto> PStr ''B2'', ''key_metrics'' \<mapsto> PStr ''abc''],
      [''briefing_id'' \<mapsto> PStr ''B3'', ''date'' \<mapsto> PStr ''2023-07-13'',
       ''briefing_text'' \<mapsto> PStr ''Market risk'']]
     = Inr [Invalid_date 1, Nonpositive_key_metrics 1,
            Missing_fields [''date'', ''briefing_text''] 2]
   \<and> error_text (Missing_fields [''date'', ''briefing_text''] 2)
       = ''ERROR: Missing required field(s): date, briefing_text in record 2.''
   \<and> (\<exists>dss. length dss = 3
         \<and> [Invalid_date 1, Nonpositive_key_metrics 1,
             Missing_fields [''date'', ''briefing_text''] 2] = concat dss
         \<and> dss ! 1 = [Missing_fields [''date'', ''briefing_text''] 2])"
proof -
  let ?r1 = "[''briefing_id'' \<mapsto> PStr ''B1'', ''date'' \<mapsto> PStr ''2023-13-01'',
       ''briefing_text'' \<mapsto> PStr ''Quarterly growth'', ''key_metrics'' \<mapsto> PStr ''-5'']"
  let ?r2 = "[''briefing_id'' \<mapsto> PStr ''B2'', ''key_metrics'' \<mapsto> PStr ''abc'']"
  let ?r3 = "[''briefing_id'' \<mapsto> PStr ''B3'', ''date'' \<mapsto> PStr ''2023-07-13'',
       ''briefing_text'' \<mapsto> PStr ''Market risk'']"
  let ?ds = "[Invalid_date 1, Nonpositive_key_metrics 1,
            Missing_fields [''date'', ''briefing_text''] 2]"
  have v: "validate_records 1 [?r1, ?r2, ?r3] = Inr ?ds" by code_simp
  have t: "error_text (Missing_fields [''date'', ''briefing_text''] 2)
       = ''ERROR: Missing required field(s): date, briefing_text in record 2.''"
    by code_simp
  have m: "missing_fields ?r2 = [''date'', ''briefing_text'']" by code_simp
  from diagnostics_order[OF v] obtain dss where
    len: "length dss = length [?r1, ?r2, ?r3]" and cc: "?ds = concat dss"
    and nth: "\<forall>k < length [?r1, ?r2, ?r3].
          ((missing_fields ([?r1, ?r2, ?r3] ! k) \<noteq> []
               \<and> dss ! k = [Missing_fields (missing_fields ([?r1, ?r2, ?r3] ! k)) (1 + k)])
              \<or> (missing_fields ([?r1, ?r2, ?r3] ! k) = []))"
    by blast
  from nth[THEN spec, of 1] have "(missing_fields ([?r1, ?r2, ?r3] ! 1) \<noteq> []
               \<and> dss ! 1 = [Missing_fields (missing_fields ([?r1, ?r2, ?r3] ! 1)) (1 + 1)])
              \<or> (missing_fields ([?r1, ?r2, ?r3] ! 1) = [])"
    by simp
  with m have "dss ! 1 = [Missing_fields [''date'', ''briefing_text''] 2]" by simp
  with len cc v t show ?thesis by (intro conjI exI[of _ dss]) simp_all
qed

section \<open>Validity of a batch\<close>

lemma validate_decoded_flag:
  assumes "validate_decoded records = Inr (is_valid, records', report, errors)"
  shows "is_valid = (errors = []) \<and> records' = records
         \<and> (\<exists>ds. validate_records 1 records = Inr ds \<and> errors = map error_text ds)"
  using assms
  by (auto simp: validate_decoded_def Let_def split: sum.splits)

lemma on_exception_flag:
  assumes "on_exception res = (is_valid, records, report, errors)"
    and "\<And>v r p e. res = Inr (v, r, p, e) \<Longrightarrow> v = (e = [])"
  shows "is_valid = (errors = [])"
  using assms by (cases res) (auto simp: on_exception_def Let_def)

lemma on_exception_diagnostics:
  assumes "on_exception (validate_decoded records) = (is_valid, records', report, errors)"
    and "validate_records 1 records = Inr ds" and "ds \<noteq> []"
  shows "errors \<noteq> []"
proof (cases "validate_decoded records")
  case (Inl e)
  with assms(1) show ?thesis by (auto simp: on_exception_def Let_def)
next
  case (Inr out)
  obtain v r p e where out: "out = (v, r, p, e)" by (cases out) auto
  from validate_decoded_flag[of records v r p e] Inr out assms(2,3)
  have "e \<noteq> []" by auto
  with assms(1) Inr out show ?thesis by (simp add: on_exception_def)
qed

lemma validate_data_accepted:
  assumes "py_lower data_format = ''json'' \<or> py_lower data_format = ''csv''"
  shows "validate_data parse_json parse_csv data_str data_format =
     on_exception (case decoded_by parse_json parse_csv data_str data_format of
                     Inl e \<Rightarrow> Inl e | Inr records \<Rightarrow> validate_decoded records)"
  using assms by (auto simp: validate_data_def decoded_by_def)

lemma validate_data_other_format:
  assumes "py_lower data_format \<noteq> ''json''" "py_lower data_format \<noteq> ''csv''"
  shows "validate_data parse_json parse_csv data_str data_format =
     (False, [], ''ERROR: Invalid data format. Please provide data in CSV or JSON format.'', [])"
  using assms by (simp add: validate_data_def)

text \<open>
  Claim C2. When \<open>validate_data\<close> accepts the format (\<open>json\<close> or \<open>csv\<close>, in any
  case), the validity flag it returns is true exactly when the list of messages it
  returns is empty, also when decoding or validation raised. When the decoded batch
  has any diagnostic, the flag is false. \<open>main\<close> runs the scorer exactly when the
  list of messages is empty, and then on the whole decoded batch: no record is scored
  when another one has a diagnostic.
\<close>

theorem validity_iff_no_diagnostics:
  assumes "py_lower data_format = ''json'' \<or> py_lower data_format = ''csv''"
    and "validate_data parse_json parse_csv data_str data_format
           = (is_valid, records, report, errors)"
  shows "is_valid = (errors = [])
       \<and> (decoded_by parse_json parse_csv data_str data_format = Inr decoded
            \<and> validate_records 1 decoded = Inr ds \<and> ds \<noteq> []
          \<longrightarrow> \<not> is_valid)
       \<and> (decoded_by parse_json parse_csv data_str data_format = Inr decoded
            \<and> validate_records 1 decoded = Inr [] \<and> is_valid
          \<longrightarrow> records = decoded)
       \<and> main_flow parse_json parse_csv generate_final_report data_str data_format
           = (report, if errors = [] then Some (process_briefings generate_final_report records)
                      else None)"
proof -
  let ?res = "case decoded_by parse_json parse_csv data_str data_format of
                     Inl e \<Rightarrow> Inl e | Inr records \<Rightarrow> validate_decoded records"
  from validate_data_accepted[OF assms(1)] assms(2)
  have oe: "on_exception ?res = (is_valid, records, report, errors)" by simp
  have a: "is_valid = (errors = [])"
  proof (rule on_exception_flag[OF oe])
    fix v r p e assume "?res = Inr (v, r, p, e)"
    then obtain recs where "validate_decoded recs = Inr (v, r, p, e)"
      by (auto split: sum.splits)
    from validate_decoded_flag[OF this] show "v = (e = [])" by simp
  qed
  have b: "decoded_by parse_json parse_csv data_str data_format = Inr decoded
            \<and> validate_records 1 decoded = Inr ds \<and> ds \<noteq> []
          \<longrightarrow> \<not> is_valid"
  proof (intro impI, elim conjE)
    assume d: "decoded_by parse_json parse_csv data_str data_format = Inr decoded"
      and v: "validate_records 1 decoded = Inr ds" and n: "ds \<noteq> []"
    from oe d have "on_exception (validate_decoded decoded) = (is_valid, records, report, errors)"
      by simp
    from on_exception_diagnostics[OF this v n] a show "\<not> is_valid" by simp
  qed
  have c: "decoded_by parse_json parse_csv data_str data_format = Inr decoded
            \<and> validate_records 1 decoded = Inr [] \<and> is_valid
          \<longrightarrow> records = decoded"
  proof (intro impI, elim conjE)
    assume d: "decoded_by parse_json parse_csv data_str data_format = Inr decoded"
      and ok: is_valid
    from oe d have o: "on_exception (validate_decoded decoded) = (is_valid, records, report, errors)"
      by simp
    show "records = decoded"
    proof (cases "validate_decoded decoded")
      case (Inl e)
      with o ok show ?thesis by (simp add: on_exception_def Let_def)
    next
      case (Inr out)
      with o have "validate_decoded decoded = Inr (is_valid, records, report, errors)"
        by (simp add: on_exception_def)
      from validate_decoded_flag[OF this] show ?thesis by simp
    qed
  qed
  have m: "main_flow parse_json parse_csv generate_final_report data_str data_format
           = (report, if errors = [] then Some (process_briefings generate_final_report records)
                      else None)"
    using a by (simp add: main_flow_def assms(2))
  show ?thesis
    by (intro conjI) (fact a b c m)+
qed


theorem validity_iff_no_diagnostics_witness:
  "(py_lower ''JSON'' = ''json'' \<or> py_lower ''JSON'' = ''csv'')
   \<and> fst (validate_data
        (\<lambda>s. Inr [[''briefing_id'' \<mapsto> PStr ''B1'', ''date'' \<mapsto> PStr ''2023-07-11'',
                    ''briefing_text'' \<mapsto> PStr ''Quarterly growth''],
                   [''briefing_id'' \<mapsto> PStr ''B2'', ''briefing_text'' \<mapsto> PStr ''Market risk'']])
        (\<lambda>s. Inl (ValueError ''Invalid CSV format. Please check your data.''))
        ''payload'' ''JSON'') = False
   \<and> snd (snd (snd (validate_data
        (\<lambda>s. Inr [[''briefing_id'' \<mapsto> PStr ''B1'', ''date'' \<mapsto> PStr ''2023-07-11'',
                    ''briefing_text'' \<mapsto> PStr ''Quarterly growth''],
                   [''briefing_id'' \<mapsto> PStr ''B2'', ''briefing_text'' \<mapsto> PStr ''Market risk'']])
        (\<lambda>s. Inl (ValueError ''Invalid CSV format. Please check your data.''))
        ''payload'' ''JSON'')))
       = [''ERROR: Missing required field(s): date in record 2.'']
   \<and> snd (main_flow
        (\<lambda>s. Inr [[''briefing_id'' \<mapsto> PStr ''B1'', ''date'' \<mapsto> PStr ''2023-07-11'',
                    ''briefing_text'' \<mapsto> PStr ''Quarterly growth''],
                   [''briefing_id'' \<mapsto> PStr ''B2'', ''briefing_text'' \<mapsto> PStr ''Market risk'']])
        (\<lambda>s. Inl (ValueError ''Invalid CSV format. Please check your data.''))
        (\<lambda>results. ''final report'')
        ''payload'' ''JSON'') = None"
proof -
  let ?pj = "\<lambda>s :: string. (Inr [[''briefing_id'' \<mapsto> PStr ''B1'', ''date'' \<mapsto> PStr ''2023-07-11'',
                    ''briefing_text'' \<mapsto> PStr ''Quarterly growth''],
                   [''briefing_id'' \<mapsto> PStr ''B2'', ''briefing_text'' \<mapsto> PStr ''Market risk'']]
                 :: py_exception + raw_record list)"
  let ?pc = "\<lambda>s :: string. (Inl (ValueError ''Invalid CSV format. Please check your data.'')
                 :: py_exception + raw_record list)"
  let ?v = "validate_data ?pj ?pc ''payload'' ''JSON''"
  have f: "py_lower ''JSON'' = ''json'' \<or> py_lower ''JSON'' = ''csv''" by code_simp
  have e: "?v = (fst ?v, fst (snd ?v), fst (snd (snd ?v)), snd (snd (snd ?v)))" by simp
  have errs: "snd (snd (snd ?v)) = [''ERROR: Missing required field(s): date in record 2.'']"
    by code_simp
  from validity_iff_no_diagnostics[OF f e, of _ _ "\<lambda>results. ''final report''"] errs f
  show ?thesis by simp
qed

section \<open>Counting keywords\<close>

lemma expected_keywords_words:
  "keyword \<in> set expected_keywords \<Longrightarrow> keyword \<noteq> [] \<and> (\<forall>c \<in> set keyword. is_word_char c)"
  by (auto simp: expected_keywords_def is_word_char_def)

lemma take_drop_eq_iff:
  "i + length ys \<le> length xs \<Longrightarrow>
   (take (length ys) (drop i xs) = ys) = (\<forall>j < length ys. xs ! (i + j) = ys ! j)"
  by (auto simp: list_eq_iff_nth_eq)

lemma whole_word_at_alt:
  "whole_word_at keyword s i =
     (i + length keyword \<le> length s
      \<and> (\<forall>j < length keyword. s ! (i + j) = keyword ! j)
      \<and> (i = 0 \<or> \<not> is_word_char (s ! (i - 1)))
      \<and> (i + length keyword = length s \<or> \<not> is_word_char (s ! (i + length keyword))))"
  by (auto simp: whole_word_at_def)

lemma match_at_whole_word:
  assumes ne: "keyword \<noteq> []" and wc: "\<forall>c \<in> set keyword. is_word_char c"
  shows "match_at keyword s i = whole_word_at keyword s i"
proof (cases "i + length keyword \<le> length s \<and> (\<forall>j < length keyword. s ! (i + j) = keyword ! j)")
  case False
  then show ?thesis
    by (auto simp: match_at_def whole_word_at_alt take_drop_eq_iff)
next
  case True
  then have len: "i + length keyword \<le> length s"
    and eq: "\<And>j. j < length keyword \<Longrightarrow> s ! (i + j) = keyword ! j" by auto
  from ne have pos: "0 < length keyword" by simp
  have first: "is_word_char (s ! i)"
    using eq[of 0] pos wc by simp
  have last: "is_word_char (s ! (i + length keyword - 1))"
  proof -
    have idx: "i + length keyword - 1 = i + (length keyword - 1)" using pos by linarith
    have "s ! (i + (length keyword - 1)) = keyword ! (length keyword - 1)"
      by (rule eq) (use pos in simp)
    moreover have "keyword ! (length keyword - 1) \<in> set keyword"
      using pos by simp
    ultimately show ?thesis unfolding idx using wc by simp
  qed
  have ilt: "i < length s" using len pos by linarith
  have b1: "boundary s i = (i = 0 \<or> \<not> is_word_char (s ! (i - 1)))"
    using first ilt by (auto simp: boundary_def word_at_def)
  have lastlt: "i + length keyword - 1 < length s" using len pos by linarith
  have gt0: "0 < i + length keyword" using pos by linarith
  have w1: "word_at s (i + length keyword - 1)"
    unfolding word_at_def using last lastlt by blast
  have b2: "boundary s (i + length keyword)
              = (i + length keyword = length s \<or> \<not> is_word_char (s ! (i + length keyword)))"
  proof -
    have "boundary s (i + length keyword) = (\<not> word_at s (i + length keyword))"
      unfolding boundary_def using w1 gt0 by blast
    also have "\<dots> = (i + length keyword = length s \<or> \<not> is_word_char (s ! (i + length keyword)))"
      unfolding word_at_def using len by auto
    finally show ?thesis .
  qed
  show ?thesis
    using True b1 b2 by (auto simp: match_at_def whole_word_at_alt take_drop_eq_iff)
qed

lemma whole_word_no_overlap:
  assumes "whole_word_at keyword s i" and "i < j" and "j < i + length keyword"
    and wc: "\<forall>c \<in> set keyword. is_word_char c"
  shows "\<not> whole_word_at keyword s j"
proof -
  from assms(1) have eq: "\<And>k. k < length keyword \<Longrightarrow> s ! (i + k) = keyword ! k"
    by (simp add: whole_word_at_alt)
  have "j - 1 - i < length keyword" using assms(2,3) by simp
  from eq[OF this] have "s ! (j - 1) = keyword ! (j - 1 - i)" using assms(2) by simp
  moreover have "keyword ! (j - 1 - i) \<in> set keyword"
    using \<open>j - 1 - i < length keyword\<close> by simp
  ultimately have "is_word_char (s ! (j - 1))" using wc by simp
  with assms(2) show ?thesis by (simp add: whole_word_at_alt)
qed

lemma count_matches_filter:
  assumes "keyword \<noteq> []" and "\<forall>c \<in> set keyword. is_word_char c"
  shows "count_matches keyword s pos = length (filter (whole_word_at keyword s) [pos..<length s])"
  using assms
proof (induction keyword s pos rule: count_matches.induct)
  case (1 keyword s pos)
  note ne = \<open>keyword \<noteq> []\<close> and wc = \<open>\<forall>c \<in> set keyword. is_word_char c\<close>
  note mw = match_at_whole_word[OF ne wc, of s]
  show ?case
  proof (cases "length s < pos")
    case True
    then show ?thesis by (simp add: count_matches.simps[of keyword s pos])
  next
    case False
    show ?thesis
    proof (cases "match_at keyword s pos")
      case True
      then have w: "whole_word_at keyword s pos" by (simp add: mw)
      then have le: "pos + length keyword \<le> length s" by (simp add: whole_word_at_alt)
      from ne have mx: "max 1 (length keyword) = length keyword" by (cases keyword) auto
      from ne have lt: "pos < pos + length keyword" by simp
      have none: "filter (whole_word_at keyword s) [Suc pos..<pos + length keyword] = []"
        using whole_word_no_overlap[OF w _ _ wc] by (auto simp: filter_empty_conv)
      have "[pos..<length s] = pos # [Suc pos..<pos + length keyword] @ [pos + length keyword..<length s]"
      proof -
        have "[pos..<pos + length keyword + (length s - (pos + length keyword))]
                = [pos..<pos + length keyword] @
                  [pos + length keyword..<pos + length keyword + (length s - (pos + length keyword))]"
          by (rule upt_add_eq_append) simp
        moreover have "pos + length keyword + (length s - (pos + length keyword)) = length s"
          using le by simp
        moreover have "[pos..<pos + length keyword] = pos # [Suc pos..<pos + length keyword]"
          using lt by (simp add: upt_conv_Cons)
        ultimately show ?thesis by simp
      qed
      then have "length (filter (whole_word_at keyword s) [pos..<length s])
          = Suc (length (filter (whole_word_at keyword s) [pos + length keyword..<length s]))"
        using w none by simp
      moreover have "count_matches keyword s pos
          = Suc (count_matches keyword s (pos + length keyword))"
        using False True mx by (simp add: count_matches.simps[of keyword s pos])
      moreover have "count_matches keyword s (pos + length keyword)
          = length (filter (whole_word_at keyword s) [pos + length keyword..<length s])"
        using "1.IH"(1)[OF False True ne wc] mx by simp
      ultimately show ?thesis by simp
    next
      case nm: False
      then have nw: "\<not> whole_word_at keyword s pos" by (simp add: mw)
      have c: "count_matches keyword s pos = count_matches keyword s (Suc pos)"
        using False nm by (simp add: count_matches.simps[of keyword s pos])
      have ih: "count_matches keyword s (Suc pos)
          = length (filter (whole_word_at keyword s) [Suc pos..<length s])"
        using "1.IH"(2)[OF False nm ne wc] .
      show ?thesis
      proof (cases "pos < length s")
        case True
        then have "[pos..<length s] = pos # [Suc pos..<length s]"
          by (simp add: upt_conv_Cons)
        with nw c ih show ?thesis by simp
      next
        case False
        with c ih show ?thesis by simp
      qed
    qed
  qed
qed

lemma count_matches_whole_word:
  assumes "keyword \<in> set expected_keywords"
  shows "count_matches keyword s 0 = whole_word_count keyword s"
  using count_matches_filter[of keyword s 0] expected_keywords_words[OF assms]
  by (simp add: whole_word_count_def)


lemma map_of_count_keywords:
  assumes "keyword \<in> set expected_keywords"
  shows "map_of (count_keywords briefing_text) keyword
           = Some (count_matches keyword (py_lower briefing_text) 0)"
proof -
  have "map_of (map (\<lambda>k. (k, f k)) ks) k = Some (f k)" if "k \<in> set ks"
    for f :: "string \<Rightarrow> nat" and ks k
    using that by (induction ks) auto
  from this[OF assms] show ?thesis by (simp add: count_keywords_def)
qed

lemma expected_keywords_distinct: "length expected_keywords = 10 \<and> distinct expected_keywords"
  by (simp add: expected_keywords_def)

lemma process_single_briefing_text:
  assumes "process_single_briefing record avg = Inr res"
  shows "\<exists>bid dt t km. record ''briefing_id'' = Some bid \<and> record ''date'' = Some dt
           \<and> record ''briefing_text'' = Some (PStr t)
           \<and> optional_key_metrics record = Inr km
           \<and> score_text bid dt t km avg = Inr res"
  using assms
  by (auto simp: process_single_briefing_def getitem_def split: option.splits sum.splits pyval.splits)

lemma score_text_fields:
  assumes "score_text bid dt t km avg = Inr res"
  shows "keyword_counts res = count_keywords t
       \<and> total_keyword_frequency res = sum_list (map snd (count_keywords t))
       \<and> word_count res = length (py_split t)
       \<and> unique_keywords_found res = length (filter (\<lambda>(keyword, count). 0 < count) (count_keywords t))
       \<and> key_metrics res = km \<and> avg_key_metric res = avg
       \<and> briefing_id res = bid \<and> date res = dt"
  using assms
  by (auto simp: score_text_def Let_def split: sum.splits)

section \<open>Rounding at the values of the examples\<close>

lemma fl_eval:
  assumes "q \<noteq> 0" and "floor_log2 \<bar>q\<bar> = e" and "- 1022 \<le> e"
    and "of_int (round_half_even (q / pow2 (e - 52))) * pow2 (e - 52) = r"
    and "\<bar>r\<bar> < 2 ^ 64"
  shows "fl q = Fin r"
proof -
  have "(2::rat) ^ 64 < 2 ^ 1024" by (rule power_strict_increasing) simp_all
  with assms(5) have "\<not> pow2 1024 \<le> \<bar>r\<bar>" by (simp add: pow2_def)
  moreover from assms(2,3) have "max (floor_log2 \<bar>q\<bar>) (- 1022) = e" by simp
  ultimately show ?thesis
    using assms(1,4) by (simp add: fl_def Let_def)
qed

lemma fl_one_fiftieth: "fl (1 / 50) = Fin (5764607523034235 / 288230376151711744)"
  by (rule fl_eval[where e = "- 6"]; code_simp)

lemma fl_one_fifth: "fl (1 / 5) = Fin (3602879701896397 / 18014398509481984)"
  by (rule fl_eval[where e = "- 3"]; code_simp)

lemma fl_twenty: "fl (90071992547409925 / 4503599627370496) = Fin 20"
  by (rule fl_eval[where e = 4]; code_simp)

lemma fl_small_ints: "fl 1 = Fin 1" "fl 10 = Fin 10" "fl 50 = Fin 50" "fl 60 = Fin 60"
proof -
  show "fl 1 = Fin 1" by (rule fl_eval[where e = 0]; code_simp)
  show "fl 10 = Fin 10" by (rule fl_eval[where e = 3]; code_simp)
  show "fl 50 = Fin 50" by (rule fl_eval[where e = 5]; code_simp)
  show "fl 60 = Fin 60" by (rule fl_eval[where e = 5]; code_simp)
qed


lemma example_counts:
  "count_keywords ''growth growth RISK'' =
     [(''growth'', 2), (''risk'', 1), (''innovation'', 0), (''market'', 0),
      (''confidence'', 0), (''investment'', 0), (''strategic'', 0),
      (''opportunity'', 0), (''challenges'', 0), (''expansion'', 0)]"
  by code_simp

lemma example_words: "length (py_split ''growth growth RISK'') = 3"
  by code_simp

lemma score_text_example:
  "score_text bid dt ''growth growth RISK'' km avg =
     Inr \<lparr> briefing_id = bid, date = dt,
           briefing_text_snippet = ''growth growth RISK'',
           key_metrics = km, avg_key_metric = avg,
           keyword_counts =
             [(''growth'', 2), (''risk'', 1), (''innovation'', 0), (''market'', 0),
              (''confidence'', 0), (''investment'', 0), (''strategic'', 0),
              (''opportunity'', 0), (''challenges'', 0), (''expansion'', 0)],
           total_keyword_frequency = 3, word_count = 3,
           normalized_keyword_score = Fin 1, unique_keywords_found = 2,
           diversity_score = Fin 20, composite_thematic_score = Fin 60,
           thematic_intensity = ''High'',
           recommendation = ''Focus on strategic growth and risk mitigation.'' \<rparr>"
  by (simp add: score_text_def example_counts example_words normalized_score_def
        int_truediv_def fl_one_fifth fl_twenty fl_small_ints fl_one_fiftieth
        expected_keywords_distinct)

section \<open>Claims on the scorer\<close>

text \<open>
  Claim C5. The count of a keyword is the number of its whole-word occurrences in the
  lower-cased text, so the match ignores case: \<open>Growth\<close> counts for \<open>growth\<close>,
  \<open>growthful\<close> does not. The mapping \<open>keyword_counts\<close> has the ten keywords of the
  vocabulary as its keys, in the order of the vocabulary, a keyword that does not
  occur having the count 0; \<open>total_keyword_frequency\<close> is the sum of the ten counts
  and \<open>unique_keywords_found\<close> the number of positive ones. For the text
  \<open>growth growth RISK\<close> the counts are 2 for \<open>growth\<close>, 1 for \<open>risk\<close> and 0 for the
  others, the total is 3, two keywords are found and the diversity score is 20.
\<close>

theorem keyword_counting:
  "map fst (count_keywords briefing_text) = expected_keywords
   \<and> length expected_keywords = 10 \<and> distinct expected_keywords
   \<and> (\<forall>keyword \<in> set expected_keywords.
         map_of (count_keywords briefing_text) keyword
           = Some (whole_word_count keyword (py_lower briefing_text)))
   \<and> (process_single_briefing record avg = Inr res \<longrightarrow>
        (\<exists>t. record ''briefing_text'' = Some (PStr t)
           \<and> keyword_counts res = count_keywords t
           \<and> map fst (keyword_counts res) = expected_keywords
           \<and> total_keyword_frequency res = sum_list (map snd (keyword_counts res))
           \<and> unique_keywords_found res
               = length (filter (\<lambda>(keyword, count). 0 < count) (keyword_counts res))))
   \<and> map_of (count_keywords ''Growth'') ''growth'' = Some 1
   \<and> map_of (count_keywords ''growthful'') ''growth'' = Some 0
   \<and> map_sum id
        (\<lambda>res. (keyword_counts res, total_keyword_frequency res, unique_keywords_found res,
                diversity_score res))
        (process_single_briefing
           [''briefing_id'' \<mapsto> PStr ''B1'', ''date'' \<mapsto> PStr ''2023-07-11'',
            ''briefing_text'' \<mapsto> PStr ''growth growth RISK''] avg)
       = Inr ([(''growth'', 2), (''risk'', 1), (''innovation'', 0), (''market'', 0),
               (''confidence'', 0), (''investment'', 0), (''strategic'', 0),
               (''opportunity'', 0), (''challenges'', 0), (''expansion'', 0)],
              3, 2, Fin 20)"
proof -
  have a: "map fst (count_keywords briefing_text) = expected_keywords" for briefing_text
    by (simp add: count_keywords_def comp_def)
  have b: "\<forall>keyword \<in> set expected_keywords.
         map_of (count_keywords briefing_text) keyword
           = Some (whole_word_count keyword (py_lower briefing_text))"
    by (simp add: map_of_count_keywords count_matches_whole_word)
  have c: "process_single_briefing record avg = Inr res \<longrightarrow>
        (\<exists>t. record ''briefing_text'' = Some (PStr t)
           \<and> keyword_counts res = count_keywords t
           \<and> map fst (keyword_counts res) = expected_keywords
           \<and> total_keyword_frequency res = sum_list (map snd (keyword_counts res))
           \<and> unique_keywords_found res
               = length (filter (\<lambda>(keyword, count). 0 < count) (keyword_counts res)))"
  proof
    assume "process_single_briefing record avg = Inr res"
    from process_single_briefing_text[OF this] obtain bid dt t km where
      t: "record ''briefing_text'' = Some (PStr t)" and s: "score_text bid dt t km avg = Inr res"
      by blast
    from score_text_fields[OF s] t a[of t]
    show "\<exists>t. record ''briefing_text'' = Some (PStr t)
           \<and> keyword_counts res = count_keywords t
           \<and> map fst (keyword_counts res) = expected_keywords
           \<and> total_keyword_frequency res = sum_list (map snd (keyword_counts res))
           \<and> unique_keywords_found res
               = length (filter (\<lambda>(keyword, count). 0 < count) (keyword_counts res))"
      by auto
  qed
  have d: "map_of (count_keywords ''Growth'') ''growth'' = Some 1" by code_simp
  have e: "map_of (count_keywords ''growthful'') ''growth'' = Some 0" by code_simp
  have f: "map_sum id
        (\<lambda>res. (keyword_counts res, total_keyword_frequency res, unique_keywords_found res,
                diversity_score res))
        (process_single_briefing
           [''briefing_id'' \<mapsto> PStr ''B1'', ''date'' \<mapsto> PStr ''2023-07-11'',
            ''briefing_text'' \<mapsto> PStr ''growth growth RISK''] avg)
       = Inr ([(''growth'', 2), (''risk'', 1), (''innovation'', 0), (''market'', 0),
               (''confidence'', 0), (''investment'', 0), (''strategic'', 0),
               (''opportunity'', 0), (''challenges'', 0), (''expansion'', 0)],
              3, 2, Fin 20)"
    by (simp add: process_single_briefing_def getitem_def optional_key_metrics_def
          field_given_def score_text_example)
  from expected_keywords_distinct have g: "length expected_keywords = 10"
    and h: "distinct expected_keywords" by simp_all
  show ?thesis
    by (intro conjI) (fact a b c d e f g h)+
qed

theorem keyword_counting_witness:
  "''growth'' \<in> set expected_keywords
   \<and> map_of (count_keywords ''Growth, growthful growth_risk RISK; growth.'') ''growth'' = Some 2
   \<and> whole_word_count ''growth'' (py_lower ''Growth, growthful growth_risk RISK; growth.'') = 2
   \<and> map_of (count_keywords ''Growth, growthful growth_risk RISK; growth.'') ''risk'' = Some 1"
proof -
  let ?t = "''Growth, growthful growth_risk RISK; growth.''"
  have m: "''growth'' \<in> set expected_keywords" by (simp add: expected_keywords_def)
  have w: "whole_word_count ''growth'' (py_lower ?t) = 2" by code_simp
  have r: "map_of (count_keywords ?t) ''risk'' = Some 1" by code_simp
  from keyword_counting[of ?t] have
    "\<forall>keyword \<in> set expected_keywords.
         map_of (count_keywords ?t) keyword = Some (whole_word_count keyword (py_lower ?t))"
    by blast
  with m have "map_of (count_keywords ?t) ''growth'' = Some (whole_word_count ''growth'' (py_lower ?t))"
    by blast
  with m w r show ?thesis by simp
qed

lemma score_text_scores:
  assumes "score_text bid dt t km avg = Inr res"
  shows "normalized_score (total_keyword_frequency res) (word_count res)
           = Inr (normalized_keyword_score res)
       \<and> (\<exists>ratio. int_truediv (int (unique_keywords_found res)) (int (length expected_keywords))
                     = Inr ratio
                  \<and> diversity_score res = fmul ratio (Fin 100))
       \<and> composite_thematic_score res
           = fadd (fmul (normalized_keyword_score res) (Fin 50))
                  (fmul (diversity_score res) (Fin (1 / 2)))
       \<and> thematic_intensity res
           = (if fgt (composite_thematic_score res) (Fin 30)
                 \<and> fgt (normalized_keyword_score res) (fl (1 / 50))
              then ''High'' else ''Moderate'')
       \<and> recommendation res
           = (if fgt (composite_thematic_score res) (Fin 30)
                 \<and> fgt (normalized_keyword_score res) (fl (1 / 50))
              then ''Focus on strategic growth and risk mitigation.''
              else ''Review the investor briefing for additional insights.'')"
  using assms
  by (auto simp: score_text_def Let_def split: sum.splits)

lemma fl_second_example:
  "fl (1 / 8) = Fin (1 / 8)"
  "fl (1 / 10) = Fin (3602879701896397 / 36028797018963968)"
  "fl (90071992547409925 / 9007199254740992) = Fin 10"
  "fl (25 / 4) = Fin (25 / 4)"
  "fl 5 = Fin 5"
  "fl (45 / 4) = Fin (45 / 4)"
proof -
  show "fl (1 / 8) = Fin (1 / 8)" by (rule fl_eval[where e = "- 3"]; code_simp)
  show "fl (1 / 10) = Fin (3602879701896397 / 36028797018963968)"
    by (rule fl_eval[where e = "- 4"]; code_simp)
  show "fl (90071992547409925 / 9007199254740992) = Fin 10"
    by (rule fl_eval[where e = 3]; code_simp)
  show "fl (25 / 4) = Fin (25 / 4)" by (rule fl_eval[where e = 2]; code_simp)
  show "fl 5 = Fin 5" by (rule fl_eval[where e = 2]; code_simp)
  show "fl (45 / 4) = Fin (45 / 4)" by (rule fl_eval[where e = 3]; code_simp)
qed

lemma second_example_counts:
  "count_keywords ''Market outlook stays calm while costs rise today'' =
     [(''growth'', 0), (''risk'', 0), (''innovation'', 0), (''market'', 1),
      (''confidence'', 0), (''investment'', 0), (''strategic'', 0),
      (''opportunity'', 0), (''challenges'', 0), (''expansion'', 0)]"
  by code_simp

lemma second_example_words:
  "length (py_split ''Market outlook stays calm while costs rise today'') = 8"
  by code_simp

lemma score_text_second_example:
  "score_text bid dt ''Market outlook stays calm while costs rise today'' km avg =
     Inr \<lparr> briefing_id = bid, date = dt,
           briefing_text_snippet = ''Market outlook stays calm while costs rise today'',
           key_metrics = km, avg_key_metric = avg,
           keyword_counts =
             [(''growth'', 0), (''risk'', 0), (''innovation'', 0), (''market'', 1),
              (''confidence'', 0), (''investment'', 0), (''strategic'', 0),
              (''opportunity'', 0), (''challenges'', 0), (''expansion'', 0)],
           total_keyword_frequency = 1, word_count = 8,
           normalized_keyword_score = Fin (1 / 8), unique_keywords_found = 1,
           diversity_score = Fin 10, composite_thematic_score = Fin (45 / 4),
           thematic_intensity = ''Moderate'',
           recommendation = ''Review the investor briefing for additional insights.'' \<rparr>"
  by (simp add: score_text_def second_example_counts second_example_words normalized_score_def
        int_truediv_def fl_second_example fl_one_fiftieth expected_keywords_distinct)

text \<open>
  Claim C4. In every result, \<open>composite_thematic_score\<close> is the float sum of
  \<open>normalized_keyword_score * 50\<close> and \<open>diversity_score * 0.5\<close>; the intensity is
  \<open>High\<close>, with the strategic-growth recommendation, exactly when both
  \<open>composite_thematic_score > 30.00\<close> and \<open>normalized_keyword_score > 0.02\<close> hold, and
  \<open>Moderate\<close>, with the review recommendation, otherwise. The literal \<open>0.02\<close> is the
  float nearest to 1/50. For the text \<open>growth growth RISK\<close> the composite score is 60
  and the intensity \<open>High\<close>.
\<close>

theorem composite_and_intensity:
  "(process_single_briefing record avg = Inr res \<longrightarrow>
      composite_thematic_score res
        = fadd (fmul (normalized_keyword_score res) (Fin 50))
               (fmul (diversity_score res) (Fin (1 / 2)))
      \<and> (thematic_intensity res = ''High'')
          = (fgt (composite_thematic_score res) (Fin 30)
             \<and> fgt (normalized_keyword_score res) (fl (1 / 50)))
      \<and> (thematic_intensity res = ''Moderate'')
          = (\<not> (fgt (composite_thematic_score res) (Fin 30)
                \<and> fgt (normalized_keyword_score res) (fl (1 / 50))))
      \<and> (recommendation res = ''Focus on strategic growth and risk mitigation.'')
          = (thematic_intensity res = ''High'')
      \<and> (recommendation res = ''Review the investor briefing for additional insights.'')
          = (thematic_intensity res = ''Moderate''))
   \<and> fl (1 / 50) = Fin (5764607523034235 / 288230376151711744)
   \<and> map_sum id (\<lambda>res. (composite_thematic_score res, thematic_intensity res))
        (process_single_briefing
           [''briefing_id'' \<mapsto> PStr ''B1'', ''date'' \<mapsto> PStr ''2023-07-11'',
            ''briefing_text'' \<mapsto> PStr ''growth growth RISK''] avg)
       = Inr (Fin 60, ''High'')"
proof -
  have a: "process_single_briefing record avg = Inr res \<longrightarrow>
      composite_thematic_score res
        = fadd (fmul (normalized_keyword_score res) (Fin 50))
               (fmul (diversity_score res) (Fin (1 / 2)))
      \<and> (thematic_intensity res = ''High'')
          = (fgt (composite_thematic_score res) (Fin 30)
             \<and> fgt (normalized_keyword_score res) (fl (1 / 50)))
      \<and> (thematic_intensity res = ''Moderate'')
          = (\<not> (fgt (composite_thematic_score res) (Fin 30)
                \<and> fgt (normalized_keyword_score res) (fl (1 / 50))))
      \<and> (recommendation res = ''Focus on strategic growth and risk mitigation.'')
          = (thematic_intensity res = ''High'')
      \<and> (recommendation res = ''Review the investor briefing for additional insights.'')
          = (thematic_intensity res = ''Moderate'')"
  proof
    assume "process_single_briefing record avg = Inr res"
    from process_single_briefing_text[OF this] obtain bid dt t km where
      "score_text bid dt t km avg = Inr res" by blast
    from score_text_scores[OF this]
    show "composite_thematic_score res
        = fadd (fmul (normalized_keyword_score res) (Fin 50))
               (fmul (diversity_score res) (Fin (1 / 2)))
      \<and> (thematic_intensity res = ''High'')
          = (fgt (composite_thematic_score res) (Fin 30)
             \<and> fgt (normalized_keyword_score res) (fl (1 / 50)))
      \<and> (thematic_intensity res = ''Moderate'')
          = (\<not> (fgt (composite_thematic_score res) (Fin 30)
                \<and> fgt (normalized_keyword_score res) (fl (1 / 50))))
      \<and> (recommendation res = ''Focus on strategic growth and risk mitigation.'')
          = (thematic_intensity res = ''High'')
      \<and> (recommendation res = ''Review the investor briefing for additional insights.'')
          = (thematic_intensity res = ''Moderate'')"
      by simp
  qed
  have b: "map_sum id (\<lambda>res. (composite_thematic_score res, thematic_intensity res))
        (process_single_briefing
           [''briefing_id'' \<mapsto> PStr ''B1'', ''date'' \<mapsto> PStr ''2023-07-11'',
            ''briefing_text'' \<mapsto> PStr ''growth growth RISK''] avg)
       = Inr (Fin 60, ''High'')"
    by (simp add: process_single_briefing_def getitem_def optional_key_metrics_def
          field_given_def score_text_example)
  show ?thesis
    by (intro conjI) (fact a b fl_one_fiftieth)+
qed


theorem composite_and_intensity_witness:
  "process_single_briefing
     [''briefing_id'' \<mapsto> PStr ''B2'', ''date'' \<mapsto> PStr ''2023-07-12'',
      ''briefing_text'' \<mapsto> PStr ''Market outlook stays calm while costs rise today''] (Fin 0)
     = Inr (projr (process_single_briefing
         [''briefing_id'' \<mapsto> PStr ''B2'', ''date'' \<mapsto> PStr ''2023-07-12'',
          ''briefing_text'' \<mapsto> PStr ''Market outlook stays calm while costs rise today'']
         (Fin 0)))
   \<and> normalized_keyword_score (projr (process_single_briefing
         [''briefing_id'' \<mapsto> PStr ''B2'', ''date'' \<mapsto> PStr ''2023-07-12'',
          ''briefing_text'' \<mapsto> PStr ''Market outlook stays calm while costs rise today'']
         (Fin 0))) = Fin (1 / 8)
   \<and> composite_thematic_score (projr (process_single_briefing
         [''briefing_id'' \<mapsto> PStr ''B2'', ''date'' \<mapsto> PStr ''2023-07-12'',
          ''briefing_text'' \<mapsto> PStr ''Market outlook stays calm while costs rise today'']
         (Fin 0))) = Fin (45 / 4)
   \<and> fgt (Fin (1 / 8)) (fl (1 / 50))
   \<and> \<not> fgt (Fin (45 / 4)) (Fin 30)
   \<and> thematic_intensity (projr (process_single_briefing
         [''briefing_id'' \<mapsto> PStr ''B2'', ''date'' \<mapsto> PStr ''2023-07-12'',
          ''briefing_text'' \<mapsto> PStr ''Market outlook stays calm while costs rise today'']
         (Fin 0))) = ''Moderate''"
proof -
  let ?r = "[''briefing_id'' \<mapsto> PStr ''B2'', ''date'' \<mapsto> PStr ''2023-07-12'',
      ''briefing_text'' \<mapsto> PStr ''Market outlook stays calm while costs rise today'']"
  let ?p = "process_single_briefing ?r (Fin 0)"
  have p: "?p = score_text (PStr ''B2'') (PStr ''2023-07-12'')
                  ''Market outlook stays calm while costs rise today'' None (Fin 0)"
    by (simp add: process_single_briefing_def getitem_def optional_key_metrics_def
          field_given_def)
  have h: "?p = Inr (projr ?p)"
    unfolding p score_text_second_example by simp
  have n: "normalized_keyword_score (projr ?p) = Fin (1 / 8)"
    unfolding p score_text_second_example by simp
  have c: "composite_thematic_score (projr ?p) = Fin (45 / 4)"
    unfolding p score_text_second_example by simp
  have g1: "fgt (Fin (1 / 8)) (fl (1 / 50))" by (simp add: fl_one_fiftieth)
  have g2: "\<not> fgt (Fin (45 / 4)) (Fin 30)" by simp
  from composite_and_intensity[of ?r "Fin 0" "projr ?p"] h
  have "(thematic_intensity (projr ?p) = ''Moderate'')
          = (\<not> (fgt (composite_thematic_score (projr ?p)) (Fin 30)
                \<and> fgt (normalized_keyword_score (projr ?p)) (fl (1 / 50))))"
    by blast
  with n c g2 have m: "thematic_intensity (projr ?p) = ''Moderate''" by simp
  show ?thesis
    by (intro conjI) (fact h n c g1 g2 m)+
qed

lemma fl_finite:
  assumes "q \<noteq> 0" and "floor_log2 \<bar>q\<bar> = e" and "- 1022 \<le> e"
    and "\<bar>of_int (round_half_even (q / pow2 (e - 52))) * pow2 (e - 52)\<bar> < 2 ^ 64"
  shows "\<exists>r. fl q = Fin r"
  using fl_eval[OF assms(1-3) refl assms(4)] by blast

lemma fl_tenths:
  assumes "u \<le> 10"
  shows "\<exists>r. fl (of_int (int u) / of_int (int 10)) = Fin r"
proof -
  from assms consider "u = 0" | "u = 1" | "u = 2" | "u = 3" | "u = 4" | "u = 5"
    | "u = 6" | "u = 7" | "u = 8" | "u = 9" | "u = 10"
    by atomize_elim arith
  then show ?thesis
  proof cases
    case 1
    then show ?thesis by (simp add: fl_def)
  next
    case 2
    have "\<exists>r. fl (1 / 10) = Fin r" by (rule fl_finite[where e = "- 4"]; code_simp)
    with 2 show ?thesis by simp
  next
    case 3
    have "\<exists>r. fl (1 / 5) = Fin r" by (rule fl_finite[where e = "- 3"]; code_simp)
    with 3 show ?thesis by simp
  next
    case 4
    have "\<exists>r. fl (3 / 10) = Fin r" by (rule fl_finite[where e = "- 2"]; code_simp)
    with 4 show ?thesis by simp
  next
    case 5
    have "\<exists>r. fl (2 / 5) = Fin r" by (rule fl_finite[where e = "- 2"]; code_simp)
    with 5 show ?thesis by simp
  next
    case 6
    have "\<exists>r. fl (1 / 2) = Fin r" by (rule fl_finite[where e = "- 1"]; code_simp)
    with 6 show ?thesis by simp
  next
    case 7
    have "\<exists>r. fl (3 / 5) = Fin r" by (rule fl_finite[where e = "- 1"]; code_simp)
    with 7 show ?thesis by simp
  next
    case 8
    have "\<exists>r. fl (7 / 10) = Fin r" by (rule fl_finite[where e = "- 1"]; code_simp)
    with 8 show ?thesis by simp
  next
    case 9
    have "\<exists>r. fl (4 / 5) = Fin r" by (rule fl_finite[where e = "- 1"]; code_simp)
    with 9 show ?thesis by simp
  next
    case 10
    have "\<exists>r. fl (9 / 10) = Fin r" by (rule fl_finite[where e = "- 1"]; code_simp)
    with 10 show ?thesis by simp
  next
    case 11
    with fl_small_ints(1) show ?thesis by simp
  qed
qed

lemma diversity_division_returns:
  "\<exists>r. int_truediv (int (length (filter P (count_keywords t)))) (int (length expected_keywords))
         = Inr (Fin r)"
proof -
  have "length (filter P (count_keywords t)) \<le> length (count_keywords t)" by simp
  also have "\<dots> = 10" by (simp add: count_keywords_def expected_keywords_distinct)
  finally obtain r where
    "fl (of_int (int (length (filter P (count_keywords t)))) / of_int (int 10)) = Fin r"
    using fl_tenths by blast
  then show ?thesis
    by (simp add: int_truediv_def expected_keywords_distinct)
qed

lemma split_acc_spaces:
  "\<forall>c \<in> set t. py_isspace c \<Longrightarrow> split_acc [] t = []"
  by (induction t) auto

lemma score_text_returns:
  assumes "normalized_score (sum_list (map snd (count_keywords t))) (length (py_split t)) = Inr n"
  shows "\<exists>res. score_text bid dt t km avg = Inr res"
proof -
  from diversity_division_returns[of "\<lambda>(keyword, count). 0 < count" t] obtain r where
    "int_truediv (int (length (filter (\<lambda>(keyword, count). 0 < count) (count_keywords t))))
       (int (length expected_keywords)) = Inr (Fin r)" by blast
  with assms show ?thesis
    by (simp add: score_text_def Let_def)
qed

lemma int_truediv_no_zero_division:
  "b \<noteq> 0 \<Longrightarrow> int_truediv a b \<noteq> Inl (ZeroDivisionError m)"
  by (auto simp: int_truediv_def split: pyfloat.splits)

lemma py_float_no_zero_division: "py_float v \<noteq> Inl (ZeroDivisionError m)"
  by (cases v) (auto simp: float_of_int_def split: pyfloat.splits option.splits)

lemma score_text_no_zero_division:
  "score_text bid dt t km avg \<noteq> Inl (ZeroDivisionError m)"
proof
  assume a: "score_text bid dt t km avg = Inl (ZeroDivisionError m)"
  have n: "normalized_score x y \<noteq> Inl (ZeroDivisionError m)" for x y
    using int_truediv_no_zero_division[of "int y" "int x" m]
    by (auto simp: normalized_score_def)
  have d: "int_truediv x (int (length expected_keywords)) \<noteq> Inl (ZeroDivisionError m)" for x
    by (rule int_truediv_no_zero_division) (simp add: expected_keywords_distinct)
  from a n d show False
    by (auto simp: score_text_def Let_def split: sum.splits)
qed

lemma process_single_briefing_no_zero_division:
  "process_single_briefing record avg \<noteq> Inl (ZeroDivisionError m)"
  using score_text_no_zero_division py_float_no_zero_division
  by (auto simp: process_single_briefing_def getitem_def optional_key_metrics_def
        float_key_metrics_def split: option.splits sum.splits pyval.splits if_splits)

text \<open>
  Claim C7. In every result, \<open>word_count\<close> is the number of words of the text of the
  record and \<open>total_keyword_frequency\<close> the sum of its keyword counts;
  \<open>normalized_keyword_score\<close> is the float quotient of the two when the text has a
  word, and 0 when it has none, and then the intensity is \<open>Moderate\<close>.
  \<open>_process_single_briefing\<close> never raises \<open>ZeroDivisionError\<close>. On a record with
  its fields and a text that is empty or all whitespace it returns a result, with word
  count 0, score 0 and intensity \<open>Moderate\<close>; on one whose text has words it returns
  a result with the quotient as its score, when the quotient is in the range of the
  floats. The text \<open>growth growth RISK\<close> has 3 words and 3 keyword occurrences and
  the score 3/3 = 1; a text of 8 words with one occurrence has the score 1/8.
\<close>

theorem normalized_score_guarded:
  "(process_single_briefing r avg = Inr res \<longrightarrow>
      (\<exists>t. r ''briefing_text'' = Some (PStr t)
         \<and> word_count res = length (py_split t)
         \<and> total_keyword_frequency res = sum_list (map snd (count_keywords t))
         \<and> (0 < length (py_split t) \<longrightarrow>
              int_truediv (int (sum_list (map snd (count_keywords t))))
                          (int (length (py_split t)))
                = Inr (normalized_keyword_score res))
         \<and> (length (py_split t) = 0 \<longrightarrow>
              normalized_keyword_score res = Fin 0
              \<and> thematic_intensity res = ''Moderate'')))
   \<and> (process_single_briefing r avg = Inr res \<longrightarrow>
      (0 < word_count res \<longrightarrow>
         int_truediv (int (total_keyword_frequency res)) (int (word_count res))
           = Inr (normalized_keyword_score res))
      \<and> (word_count res = 0 \<longrightarrow>
           normalized_keyword_score res = Fin 0 \<and> thematic_intensity res = ''Moderate''))
   \<and> process_single_briefing r avg \<noteq> Inl (ZeroDivisionError m)
   \<and> (r ''briefing_id'' = Some bid \<and> r ''date'' = Some dt
        \<and> r ''briefing_text'' = Some (PStr t) \<and> (\<forall>c \<in> set t. py_isspace c)
        \<and> optional_key_metrics r = Inr km \<longrightarrow>
        (\<exists>x. process_single_briefing r avg = Inr x \<and> word_count x = 0
             \<and> normalized_keyword_score x = Fin 0 \<and> thematic_intensity x = ''Moderate''))
   \<and> (r ''briefing_id'' = Some bid \<and> r ''date'' = Some dt
        \<and> r ''briefing_text'' = Some (PStr t) \<and> 0 < length (py_split t)
        \<and> int_truediv (int (sum_list (map snd (count_keywords t))))
                       (int (length (py_split t))) = Inr n
        \<and> optional_key_metrics r = Inr km \<longrightarrow>
        (\<exists>x. process_single_briefing r avg = Inr x \<and> word_count x = length (py_split t)
             \<and> total_keyword_frequency x = sum_list (map snd (count_keywords t))
             \<and> normalized_keyword_score x = n))
   \<and> map_sum id
        (\<lambda>x. (total_keyword_frequency x, word_count x, normalized_keyword_score x))
        (process_single_briefing
           [''briefing_id'' \<mapsto> PStr ''B1'', ''date'' \<mapsto> PStr ''2023-07-11'',
         ''briefing_text'' \<mapsto> PStr ''growth growth RISK''] avg)
       = Inr (3, 3, Fin 1)
   \<and> int_truediv 3 3 = Inr (Fin 1)
   \<and> map_sum id
        (\<lambda>x. (total_keyword_frequency x, word_count x, normalized_keyword_score x))
        (process_single_briefing
           [''briefing_id'' \<mapsto> PStr ''B2'', ''date'' \<mapsto> PStr ''2023-07-12'',
         ''briefing_text'' \<mapsto> PStr ''Market outlook stays calm while costs rise today''] avg)
       = Inr (1, 8, Fin (1 / 8))
   \<and> int_truediv 1 8 = Inr (Fin (1 / 8))"
proof -
  have zero: "normalized_keyword_score x = Fin 0 \<and> thematic_intensity x = ''Moderate''"
    if s: "score_text b d y k avg = Inr x" and w: "word_count x = 0" for b d y k x
  proof -
    from score_text_scores[OF s] w have n: "normalized_keyword_score x = Fin 0"
      by (simp add: normalized_score_def)
    from score_text_scores[OF s] n show ?thesis
      by (simp add: fl_one_fiftieth)
  qed
  have quot: "0 < word_count x \<longrightarrow>
         int_truediv (int (total_keyword_frequency x)) (int (word_count x))
           = Inr (normalized_keyword_score x)"
    if s: "score_text b d y k avg = Inr x" for b d y k x
  proof -
    from score_text_scores[OF s]
    have "normalized_score (total_keyword_frequency x) (word_count x)
            = Inr (normalized_keyword_score x)" by blast
    then show ?thesis
      by (auto simp: normalized_score_def split: if_splits)
  qed
  have a0: "process_single_briefing r avg = Inr res \<longrightarrow>
      (\<exists>t. r ''briefing_text'' = Some (PStr t)
         \<and> word_count res = length (py_split t)
         \<and> total_keyword_frequency res = sum_list (map snd (count_keywords t))
         \<and> (0 < length (py_split t) \<longrightarrow>
              int_truediv (int (sum_list (map snd (count_keywords t))))
                          (int (length (py_split t)))
                = Inr (normalized_keyword_score res))
         \<and> (length (py_split t) = 0 \<longrightarrow>
              normalized_keyword_score res = Fin 0
              \<and> thematic_intensity res = ''Moderate''))"
  proof
    assume "process_single_briefing r avg = Inr res"
    from process_single_briefing_text[OF this] obtain b d y k where
      y: "r ''briefing_text'' = Some (PStr y)" and s: "score_text b d y k avg = Inr res"
      by blast
    from score_text_fields[OF s] have w: "word_count res = length (py_split y)"
      and tf: "total_keyword_frequency res = sum_list (map snd (count_keywords y))"
      by simp_all
    from quot[OF s] have q: "0 < length (py_split y) \<longrightarrow>
              int_truediv (int (sum_list (map snd (count_keywords y))))
                          (int (length (py_split y)))
                = Inr (normalized_keyword_score res)"
      unfolding w tf .
    from zero[OF s] have z: "length (py_split y) = 0 \<longrightarrow>
              normalized_keyword_score res = Fin 0
              \<and> thematic_intensity res = ''Moderate''"
      unfolding w by blast
    from y w tf q z
    show "\<exists>t. r ''briefing_text'' = Some (PStr t)
         \<and> word_count res = length (py_split t)
         \<and> total_keyword_frequency res = sum_list (map snd (count_keywords t))
         \<and> (0 < length (py_split t) \<longrightarrow>
              int_truediv (int (sum_list (map snd (count_keywords t))))
                          (int (length (py_split t)))
                = Inr (normalized_keyword_score res))
         \<and> (length (py_split t) = 0 \<longrightarrow>
              normalized_keyword_score res = Fin 0
              \<and> thematic_intensity res = ''Moderate'')"
      by blast
  qed
  have a: "process_single_briefing r avg = Inr res \<longrightarrow>
      (0 < word_count res \<longrightarrow>
         int_truediv (int (total_keyword_frequency res)) (int (word_count res))
           = Inr (normalized_keyword_score res))
      \<and> (word_count res = 0 \<longrightarrow>
           normalized_keyword_score res = Fin 0 \<and> thematic_intensity res = ''Moderate'')"
  proof
    assume "process_single_briefing r avg = Inr res"
    from process_single_briefing_text[OF this] obtain b d y k where
      s: "score_text b d y k avg = Inr res" by blast
    from zero[OF s]
    have p2: "word_count res = 0 \<longrightarrow>
           normalized_keyword_score res = Fin 0 \<and> thematic_intensity res = ''Moderate''"
      by blast
    from quot[OF s] p2
    show "(0 < word_count res \<longrightarrow>
         int_truediv (int (total_keyword_frequency res)) (int (word_count res))
           = Inr (normalized_keyword_score res))
      \<and> (word_count res = 0 \<longrightarrow>
           normalized_keyword_score res = Fin 0 \<and> thematic_intensity res = ''Moderate'')"
      by (rule conjI)
  qed
  have c: "r ''briefing_id'' = Some bid \<and> r ''date'' = Some dt
        \<and> r ''briefing_text'' = Some (PStr t) \<and> (\<forall>c \<in> set t. py_isspace c)
        \<and> optional_key_metrics r = Inr km \<longrightarrow>
        (\<exists>x. process_single_briefing r avg = Inr x \<and> word_count x = 0
             \<and> normalized_keyword_score x = Fin 0 \<and> thematic_intensity x = ''Moderate'')"
  proof (intro impI, elim conjE)
    assume f: "r ''briefing_id'' = Some bid" "r ''date'' = Some dt"
      "r ''briefing_text'' = Some (PStr t)" "optional_key_metrics r = Inr km"
      and sp: "\<forall>c \<in> set t. py_isspace c"
    from f have p: "process_single_briefing r avg = score_text bid dt t km avg"
      by (simp add: process_single_briefing_def getitem_def)
    from split_acc_spaces[OF sp] have w: "length (py_split t) = 0"
      by (simp add: py_split_def)
    then have "normalized_score (sum_list (map snd (count_keywords t))) (length (py_split t))
                 = Inr (Fin 0)"
      by (simp add: normalized_score_def)
    from score_text_returns[OF this] obtain x where x: "score_text bid dt t km avg = Inr x"
      by blast
    from score_text_fields[OF x] w have "word_count x = 0" by simp
    with zero[OF x] x p
    show "\<exists>x. process_single_briefing r avg = Inr x \<and> word_count x = 0
             \<and> normalized_keyword_score x = Fin 0 \<and> thematic_intensity x = ''Moderate''"
      by auto
  qed
  have d: "r ''briefing_id'' = Some bid \<and> r ''date'' = Some dt
        \<and> r ''briefing_text'' = Some (PStr t) \<and> 0 < length (py_split t)
        \<and> int_truediv (int (sum_list (map snd (count_keywords t))))
                       (int (length (py_split t))) = Inr n
        \<and> optional_key_metrics r = Inr km \<longrightarrow>
        (\<exists>x. process_single_briefing r avg = Inr x \<and> word_count x = length (py_split t)
             \<and> total_keyword_frequency x = sum_list (map snd (count_keywords t))
             \<and> normalized_keyword_score x = n)"
  proof (intro impI, elim conjE)
    assume f: "r ''briefing_id'' = Some bid" "r ''date'' = Some dt"
      "r ''briefing_text'' = Some (PStr t)" "optional_key_metrics r = Inr km"
      and pos: "0 < length (py_split t)"
      and dv: "int_truediv (int (sum_list (map snd (count_keywords t))))
                       (int (length (py_split t))) = Inr n"
    from f have p: "process_single_briefing r avg = score_text bid dt t km avg"
      by (simp add: process_single_briefing_def getitem_def)
    from pos dv
    have ns: "normalized_score (sum_list (map snd (count_keywords t))) (length (py_split t))
                 = Inr n"
      by (simp add: normalized_score_def)
    from score_text_returns[OF this] obtain x where x: "score_text bid dt t km avg = Inr x"
      by blast
    from score_text_fields[OF x] have w: "word_count x = length (py_split t)"
      and tf: "total_keyword_frequency x = sum_list (map snd (count_keywords t))"
      by simp_all
    from score_text_scores[OF x]
    have "normalized_score (total_keyword_frequency x) (word_count x)
            = Inr (normalized_keyword_score x)" by blast
    with ns w tf have "normalized_keyword_score x = n" by simp
    with w tf x p
    show "\<exists>x. process_single_briefing r avg = Inr x \<and> word_count x = length (py_split t)
             \<and> total_keyword_frequency x = sum_list (map snd (count_keywords t))
             \<and> normalized_keyword_score x = n"
      by auto
  qed
  have e1: "map_sum id
        (\<lambda>x. (total_keyword_frequency x, word_count x, normalized_keyword_score x))
        (process_single_briefing
           [''briefing_id'' \<mapsto> PStr ''B1'', ''date'' \<mapsto> PStr ''2023-07-11'',
         ''briefing_text'' \<mapsto> PStr ''growth growth RISK''] avg)
       = Inr (3, 3, Fin 1)"
    by (simp add: process_single_briefing_def getitem_def optional_key_metrics_def
          field_given_def score_text_example)
  have e2: "map_sum id
        (\<lambda>x. (total_keyword_frequency x, word_count x, normalized_keyword_score x))
        (process_single_briefing
           [''briefing_id'' \<mapsto> PStr ''B2'', ''date'' \<mapsto> PStr ''2023-07-12'',
         ''briefing_text'' \<mapsto> PStr ''Market outlook stays calm while costs rise today''] avg)
       = Inr (1, 8, Fin (1 / 8))"
    by (simp add: process_single_briefing_def getitem_def optional_key_metrics_def
          field_given_def score_text_second_example)
  have q1: "int_truediv 3 3 = Inr (Fin 1)"
    by (simp add: int_truediv_def fl_small_ints)
  have q2: "int_truediv 1 8 = Inr (Fin (1 / 8))"
    by (simp add: int_truediv_def fl_second_example)
  show ?thesis
    by (intro conjI) (fact a0 a c d e1 e2 q1 q2 process_single_briefing_no_zero_division)+
qed

theorem normalized_score_guarded_witness:
  "process_single_briefing
        [''briefing_id'' \<mapsto> PStr ''B1'', ''date'' \<mapsto> PStr ''2023-07-11'',
         ''briefing_text'' \<mapsto> PStr ''growth growth RISK''] (Fin 0)
     = Inr (projr (process_single_briefing
        [''briefing_id'' \<mapsto> PStr ''B1'', ''date'' \<mapsto> PStr ''2023-07-11'',
         ''briefing_text'' \<mapsto> PStr ''growth growth RISK''] (Fin 0)))
   \<and> word_count (projr (process_single_briefing
        [''briefing_id'' \<mapsto> PStr ''B1'', ''date'' \<mapsto> PStr ''2023-07-11'',
         ''briefing_text'' \<mapsto> PStr ''growth growth RISK''] (Fin 0))) = 3
   \<and> total_keyword_frequency (projr (process_single_briefing
        [''briefing_id'' \<mapsto> PStr ''B1'', ''date'' \<mapsto> PStr ''2023-07-11'',
         ''briefing_text'' \<mapsto> PStr ''growth growth RISK''] (Fin 0))) = 3
   \<and> int_truediv 3 3 = Inr (normalized_keyword_score (projr (process_single_briefing
        [''briefing_id'' \<mapsto> PStr ''B1'', ''date'' \<mapsto> PStr ''2023-07-11'',
         ''briefing_text'' \<mapsto> PStr ''growth growth RISK''] (Fin 0))))
   \<and> normalized_keyword_score (projr (process_single_briefing
        [''briefing_id'' \<mapsto> PStr ''B1'', ''date'' \<mapsto> PStr ''2023-07-11'',
         ''briefing_text'' \<mapsto> PStr ''growth growth RISK''] (Fin 0))) = Fin 1
   \<and> length (py_split ''Market outlook stays calm while costs rise today'') = 8
   \<and> (\<exists>x. process_single_briefing
        [''briefing_id'' \<mapsto> PStr ''B2'', ''date'' \<mapsto> PStr ''2023-07-12'',
         ''briefing_text'' \<mapsto> PStr ''Market outlook stays calm while costs rise today''] (Fin 0) = Inr x
          \<and> word_count x = 8 \<and> total_keyword_frequency x = 1
          \<and> normalized_keyword_score x = Fin (1 / 8))
   \<and> list_all py_isspace ''   ''
   \<and> optional_key_metrics
        [''briefing_id'' \<mapsto> PStr ''B9'', ''date'' \<mapsto> PStr ''2023-07-19'',
         ''briefing_text'' \<mapsto> PStr ''   ''] = Inr None
   \<and> (\<exists>x. process_single_briefing
        [''briefing_id'' \<mapsto> PStr ''B9'', ''date'' \<mapsto> PStr ''2023-07-19'',
         ''briefing_text'' \<mapsto> PStr ''   ''] (Fin 0) = Inr x
          \<and> word_count x = 0 \<and> normalized_keyword_score x = Fin 0
          \<and> thematic_intensity x = ''Moderate'')"
proof -
  let ?r1 = "[''briefing_id'' \<mapsto> PStr ''B1'', ''date'' \<mapsto> PStr ''2023-07-11'',
         ''briefing_text'' \<mapsto> PStr ''growth growth RISK'']"
  let ?r2 = "[''briefing_id'' \<mapsto> PStr ''B2'', ''date'' \<mapsto> PStr ''2023-07-12'',
         ''briefing_text'' \<mapsto> PStr ''Market outlook stays calm while costs rise today'']"
  let ?r3 = "[''briefing_id'' \<mapsto> PStr ''B9'', ''date'' \<mapsto> PStr ''2023-07-19'',
         ''briefing_text'' \<mapsto> PStr ''   '']"
  let ?p1 = "process_single_briefing ?r1 (Fin 0)"
  have p1: "?p1 = score_text (PStr ''B1'') (PStr ''2023-07-11'') ''growth growth RISK''
                    None (Fin 0)"
    by (simp add: process_single_briefing_def getitem_def optional_key_metrics_def
          field_given_def)
  have h1: "?p1 = Inr (projr ?p1)"
    unfolding p1 score_text_example by simp
  have w1: "word_count (projr ?p1) = 3"
    unfolding p1 score_text_example by simp
  have t1: "total_keyword_frequency (projr ?p1) = 3"
    unfolding p1 score_text_example by simp
  note th1 = normalized_score_guarded[where r = ?r1 and avg = "Fin 0" and res = "projr ?p1"]
  from th1 h1
  have "0 < word_count (projr ?p1) \<longrightarrow>
         int_truediv (int (total_keyword_frequency (projr ?p1))) (int (word_count (projr ?p1)))
           = Inr (normalized_keyword_score (projr ?p1))"
    by blast
  then have q1: "int_truediv 3 3 = Inr (normalized_keyword_score (projr ?p1))"
    unfolding w1 t1 by simp
  from th1 have "int_truediv 3 3 = Inr (Fin 1)" by blast
  with q1 have n1: "normalized_keyword_score (projr ?p1) = Fin 1" by simp
  have s: "list_all py_isspace ''   ''" by (simp add: py_isspace_def)
  then have s': "\<forall>c \<in> set ''   ''. py_isspace c" by (simp add: list_all_iff)
  have k2: "optional_key_metrics ?r2 = Inr None"
    by (simp add: optional_key_metrics_def field_given_def)
  have k3: "optional_key_metrics ?r3 = Inr None"
    by (simp add: optional_key_metrics_def field_given_def)
  have f2: "?r2 ''briefing_id'' = Some (PStr ''B2'')" "?r2 ''date'' = Some (PStr ''2023-07-12'')"
    "?r2 ''briefing_text'' = Some (PStr ''Market outlook stays calm while costs rise today'')"
    by simp_all
  have f3: "?r3 ''briefing_id'' = Some (PStr ''B9'')" "?r3 ''date'' = Some (PStr ''2023-07-19'')"
    "?r3 ''briefing_text'' = Some (PStr ''   '')" by simp_all
  have w2: "length (py_split ''Market outlook stays calm while costs rise today'') = 8"
    by (rule second_example_words)
  have c2: "sum_list (map snd
              (count_keywords ''Market outlook stays calm while costs rise today'')) = 1"
    unfolding second_example_counts by simp
  note th2 = normalized_score_guarded[where r = ?r2 and avg = "Fin 0"
      and bid = "PStr ''B2''" and dt = "PStr ''2023-07-12''"
      and t = "''Market outlook stays calm while costs rise today''" and km = None
      and n = "Fin (1 / 8)"]
  from th2 have dv: "int_truediv 1 8 = Inr (Fin (1 / 8))" by blast
  from th2 f2 k2 dv
  have e2: "\<exists>x. process_single_briefing ?r2 (Fin 0) = Inr x
          \<and> word_count x = 8 \<and> total_keyword_frequency x = 1
          \<and> normalized_keyword_score x = Fin (1 / 8)"
    unfolding w2 c2 by simp
  note th3 = normalized_score_guarded[where r = ?r3 and avg = "Fin 0"
      and bid = "PStr ''B9''" and dt = "PStr ''2023-07-19''" and t = "''   ''" and km = None]
  from th3 f3 s' k3
  have e3: "\<exists>x. process_single_briefing ?r3 (Fin 0) = Inr x \<and> word_count x = 0
             \<and> normalized_keyword_score x = Fin 0 \<and> thematic_intensity x = ''Moderate''"
    by blast
  show ?thesis
    by (intro conjI) (fact h1 w1 t1 q1 n1 w2 e2 s k3 e3)+
qed

lemma process_all_avg:
  "process_all avg records = Inr results \<Longrightarrow>
   length results = length records
   \<and> (\<forall>k < length records.
         process_single_briefing (records ! k) avg = Inr (results ! k)
         \<and> avg_key_metric (results ! k) = avg)"
proof (induction records arbitrary: results)
  case Nil
  then show ?case by simp
next
  case (Cons r rs)
  from Cons.prems obtain x xs where
    x: "process_single_briefing r avg = Inr x" and xs: "process_all avg rs = Inr xs"
    and res: "results = x # xs"
    by (auto split: sum.splits)
  from process_single_briefing_text[OF x] obtain bid dt t km where
    "score_text bid dt t km avg = Inr x" by blast
  from score_text_fields[OF this] have ax: "avg_key_metric x = avg" by simp
  from Cons.IH[OF xs] have ih: "length xs = length rs"
    "\<forall>k < length rs. process_single_briefing (rs ! k) avg = Inr (xs ! k)
         \<and> avg_key_metric (xs ! k) = avg" by simp_all
  have "\<forall>k < length (r # rs).
         process_single_briefing ((r # rs) ! k) avg = Inr ((x # xs) ! k)
         \<and> avg_key_metric ((x # xs) ! k) = avg"
  proof (intro allI impI)
    fix k assume "k < length (r # rs)"
    then show "process_single_briefing ((r # rs) ! k) avg = Inr ((x # xs) ! k)
         \<and> avg_key_metric ((x # xs) ! k) = avg"
      using x ax ih(2) by (cases k) auto
  qed
  with ih(1) res show ?case by simp
qed

lemma sum_key_metrics_foldl:
  "map float_key_metrics rs = map Inr fs \<Longrightarrow>
   sum_key_metrics acc rs = Inr (foldl fadd acc fs)"
proof (induction rs arbitrary: acc fs)
  case Nil
  then show ?case by simp
next
  case (Cons r rs)
  then obtain f fs' where "fs = f # fs'" "float_key_metrics r = Inr f"
    "map float_key_metrics rs = map Inr fs'"
    by (cases fs) auto
  with Cons.IH[of fs' "fadd acc f"] show ?case by simp
qed


lemma fl_third_example:
  "fl 96 = Fin 96" "fl 94 = Fin 94" "fl 92 = Fin 92" "fl 190 = Fin 190" "fl 282 = Fin 282"
  "fl 3 = Fin 3"
proof -
  show "fl 96 = Fin 96" by (rule fl_eval[where e = 6]; code_simp)
  show "fl 94 = Fin 94" by (rule fl_eval[where e = 6]; code_simp)
  show "fl 92 = Fin 92" by (rule fl_eval[where e = 6]; code_simp)
  show "fl 190 = Fin 190" by (rule fl_eval[where e = 7]; code_simp)
  show "fl 282 = Fin 282" by (rule fl_eval[where e = 8]; code_simp)
  show "fl 3 = Fin 3" by (rule fl_eval[where e = 1]; code_simp)
qed

lemma parse_float_94: "parse_float ''94'' = Some (fl 94)"
  by (simp add: parse_float_def float_strip_def split_sign_def py_lower_def py_lower_char_def
        parse_decimal_def parse_exponent_def nat_of_digits_def digit_val_def is_digit_def
        float_isspace_def pow10_def)


lemma average_of_example:
  "average_key_metric
     [[''briefing_id'' \<mapsto> PStr ''B311'', ''date'' \<mapsto> PStr ''2023-07-11'',
       ''briefing_text'' \<mapsto> PStr ''growth growth RISK'', ''key_metrics'' \<mapsto> PInt 96],
      [''briefing_id'' \<mapsto> PStr ''B312'', ''date'' \<mapsto> PStr ''2023-07-12'',
       ''briefing_text'' \<mapsto> PStr ''Market outlook stays calm while costs rise today'',
       ''key_metrics'' \<mapsto> PInt 94],
      [''briefing_id'' \<mapsto> PStr ''B313'', ''date'' \<mapsto> PStr ''2023-07-13'',
       ''briefing_text'' \<mapsto> PStr ''growth growth RISK'', ''key_metrics'' \<mapsto> PInt 92]]
     = Inr (Fin 94)"
  by (simp add: average_key_metric_def field_given_def float_key_metrics_def getitem_def
        float_of_int_def fl_third_example)

text \<open>
  Claim C6. \<open>process_briefings\<close> computes \<open>avg_key_metric\<close> once, over the whole
  batch and before any record is scored, and every result of the batch carries that
  same value. It is 0 when no record supplies \<open>key_metrics\<close>; otherwise it is the
  float sum of the \<open>key_metrics\<close> values of the records that supply one, taken in
  batch order, divided by their number. For the metrics 96, 94 and 92 the three
  results all carry 94.
\<close>

theorem avg_key_metric_shared:
  "(score_results records = Inr results \<longrightarrow>
      (\<exists>avg. average_key_metric records = Inr avg
         \<and> length results = length records
         \<and> (\<forall>k < length records.
               process_single_briefing (records ! k) avg = Inr (results ! k)
               \<and> avg_key_metric (results ! k) = avg)))
   \<and> (filter (\<lambda>r. field_given r ''key_metrics'') records = [] \<longrightarrow>
        average_key_metric records = Inr (Fin 0))
   \<and> (filter (\<lambda>r. field_given r ''key_metrics'') records \<noteq> []
        \<and> map float_key_metrics (filter (\<lambda>r. field_given r ''key_metrics'') records) = map Inr fs
        \<and> float_of_int (int (length fs)) = Inr n \<longrightarrow>
        average_key_metric records = fdiv (foldl fadd (Fin 0) fs) n)
   \<and> map_sum id (map avg_key_metric) (score_results
     [[''briefing_id'' \<mapsto> PStr ''B311'', ''date'' \<mapsto> PStr ''2023-07-11'',
       ''briefing_text'' \<mapsto> PStr ''growth growth RISK'', ''key_metrics'' \<mapsto> PInt 96],
      [''briefing_id'' \<mapsto> PStr ''B312'', ''date'' \<mapsto> PStr ''2023-07-12'',
       ''briefing_text'' \<mapsto> PStr ''Market outlook stays calm while costs rise today'',
       ''key_metrics'' \<mapsto> PInt 94],
      [''briefing_id'' \<mapsto> PStr ''B313'', ''date'' \<mapsto> PStr ''2023-07-13'',
       ''briefing_text'' \<mapsto> PStr ''growth growth RISK'', ''key_metrics'' \<mapsto> PInt 92]])
     = Inr [Fin 94, Fin 94, Fin 94]"
proof -
  have a: "score_results records = Inr results \<longrightarrow>
      (\<exists>avg. average_key_metric records = Inr avg
         \<and> length results = length records
         \<and> (\<forall>k < length records.
               process_single_briefing (records ! k) avg = Inr (results ! k)
               \<and> avg_key_metric (results ! k) = avg))"
  proof
    assume "score_results records = Inr results"
    then obtain avg where av: "average_key_metric records = Inr avg"
      and pa: "process_all avg records = Inr results"
      by (auto simp: score_results_def split: sum.splits)
    from process_all_avg[OF pa] av
    show "\<exists>avg. average_key_metric records = Inr avg
         \<and> length results = length records
         \<and> (\<forall>k < length records.
               process_single_briefing (records ! k) avg = Inr (results ! k)
               \<and> avg_key_metric (results ! k) = avg)"
      by blast
  qed
  have b: "filter (\<lambda>r. field_given r ''key_metrics'') records = [] \<longrightarrow>
        average_key_metric records = Inr (Fin 0)"
    by (simp add: average_key_metric_def)
  have c: "filter (\<lambda>r. field_given r ''key_metrics'') records \<noteq> []
        \<and> map float_key_metrics (filter (\<lambda>r. field_given r ''key_metrics'') records) = map Inr fs
        \<and> float_of_int (int (length fs)) = Inr n \<longrightarrow>
        average_key_metric records = fdiv (foldl fadd (Fin 0) fs) n"
  proof (intro impI, elim conjE)
    let ?given = "filter (\<lambda>r. field_given r ''key_metrics'') records"
    assume ne: "?given \<noteq> []" and m: "map float_key_metrics ?given = map Inr fs"
      and n: "float_of_int (int (length fs)) = Inr n"
    from m have "length ?given = length fs" by (metis length_map)
    with ne n sum_key_metrics_foldl[OF m, of "Fin 0"]
    show "average_key_metric records = fdiv (foldl fadd (Fin 0) fs) n"
      by (simp add: average_key_metric_def Let_def)
  qed
  have d: "map_sum id (map avg_key_metric) (score_results
     [[''briefing_id'' \<mapsto> PStr ''B311'', ''date'' \<mapsto> PStr ''2023-07-11'',
       ''briefing_text'' \<mapsto> PStr ''growth growth RISK'', ''key_metrics'' \<mapsto> PInt 96],
      [''briefing_id'' \<mapsto> PStr ''B312'', ''date'' \<mapsto> PStr ''2023-07-12'',
       ''briefing_text'' \<mapsto> PStr ''Market outlook stays calm while costs rise today'',
       ''key_metrics'' \<mapsto> PInt 94],
      [''briefing_id'' \<mapsto> PStr ''B313'', ''date'' \<mapsto> PStr ''2023-07-13'',
       ''briefing_text'' \<mapsto> PStr ''growth growth RISK'', ''key_metrics'' \<mapsto> PInt 92]])
     = Inr [Fin 94, Fin 94, Fin 94]"
    unfolding score_results_def average_of_example
    by (simp add: process_single_briefing_def getitem_def optional_key_metrics_def
          field_given_def float_key_metrics_def float_of_int_def fl_third_example
          score_text_example score_text_second_example)
  show ?thesis
    by (intro conjI) (fact a b c d)+
qed


theorem avg_key_metric_shared_witness:
  "score_results
      [[''briefing_id'' \<mapsto> PStr ''B311'', ''date'' \<mapsto> PStr ''2023-07-11'',
        ''briefing_text'' \<mapsto> PStr ''growth growth RISK'', ''key_metrics'' \<mapsto> PInt 96],
       [''briefing_id'' \<mapsto> PStr ''B312'', ''date'' \<mapsto> PStr ''2023-07-12'',
        ''briefing_text'' \<mapsto> PStr ''Market outlook stays calm while costs rise today'',
        ''key_metrics'' \<mapsto> PStr ''94''],
       [''briefing_id'' \<mapsto> PStr ''B313'', ''date'' \<mapsto> PStr ''2023-07-13'',
        ''briefing_text'' \<mapsto> PStr ''growth growth RISK'',
        ''key_metrics'' \<mapsto> PFloat (Fin 92)],
       [''briefing_id'' \<mapsto> PStr ''B314'', ''date'' \<mapsto> PStr ''2023-07-14'',
        ''briefing_text'' \<mapsto> PStr ''Market outlook stays calm while costs rise today'']]
     = Inr (projr (score_results
      [[''briefing_id'' \<mapsto> PStr ''B311'', ''date'' \<mapsto> PStr ''2023-07-11'',
        ''briefing_text'' \<mapsto> PStr ''growth growth RISK'', ''key_metrics'' \<mapsto> PInt 96],
       [''briefing_id'' \<mapsto> PStr ''B312'', ''date'' \<mapsto> PStr ''2023-07-12'',
        ''briefing_text'' \<mapsto> PStr ''Market outlook stays calm while costs rise today'',
        ''key_metrics'' \<mapsto> PStr ''94''],
       [''briefing_id'' \<mapsto> PStr ''B313'', ''date'' \<mapsto> PStr ''2023-07-13'',
        ''briefing_text'' \<mapsto> PStr ''growth growth RISK'',
        ''key_metrics'' \<mapsto> PFloat (Fin 92)],
       [''briefing_id'' \<mapsto> PStr ''B314'', ''date'' \<mapsto> PStr ''2023-07-14'',
        ''briefing_text'' \<mapsto> PStr ''Market outlook stays calm while costs rise today'']]))
   \<and> average_key_metric
      [[''briefing_id'' \<mapsto> PStr ''B311'', ''date'' \<mapsto> PStr ''2023-07-11'',
        ''briefing_text'' \<mapsto> PStr ''growth growth RISK'', ''key_metrics'' \<mapsto> PInt 96],
       [''briefing_id'' \<mapsto> PStr ''B312'', ''date'' \<mapsto> PStr ''2023-07-12'',
        ''briefing_text'' \<mapsto> PStr ''Market outlook stays calm while costs rise today'',
        ''key_metrics'' \<mapsto> PStr ''94''],
       [''briefing_id'' \<mapsto> PStr ''B313'', ''date'' \<mapsto> PStr ''2023-07-13'',
        ''briefing_text'' \<mapsto> PStr ''growth growth RISK'',
        ''key_metrics'' \<mapsto> PFloat (Fin 92)],
       [''briefing_id'' \<mapsto> PStr ''B314'', ''date'' \<mapsto> PStr ''2023-07-14'',
        ''briefing_text'' \<mapsto> PStr ''Market outlook stays calm while costs rise today'']] = Inr (Fin 94)
   \<and> length (projr (score_results
      [[''briefing_id'' \<mapsto> PStr ''B311'', ''date'' \<mapsto> PStr ''2023-07-11'',
        ''briefing_text'' \<mapsto> PStr ''growth growth RISK'', ''key_metrics'' \<mapsto> PInt 96],
       [''briefing_id'' \<mapsto> PStr ''B312'', ''date'' \<mapsto> PStr ''2023-07-12'',
        ''briefing_text'' \<mapsto> PStr ''Market outlook stays calm while costs rise today'',
        ''key_metrics'' \<mapsto> PStr ''94''],
       [''briefing_id'' \<mapsto> PStr ''B313'', ''date'' \<mapsto> PStr ''2023-07-13'',
        ''briefing_text'' \<mapsto> PStr ''growth growth RISK'',
        ''key_metrics'' \<mapsto> PFloat (Fin 92)],
       [''briefing_id'' \<mapsto> PStr ''B314'', ''date'' \<mapsto> PStr ''2023-07-14'',
        ''briefing_text'' \<mapsto> PStr ''Market outlook stays calm while costs rise today'']])) = 4
   \<and> map avg_key_metric (projr (score_results
      [[''briefing_id'' \<mapsto> PStr ''B311'', ''date'' \<mapsto> PStr ''2023-07-11'',
        ''briefing_text'' \<mapsto> PStr ''growth growth RISK'', ''key_metrics'' \<mapsto> PInt 96],
       [''briefing_id'' \<mapsto> PStr ''B312'', ''date'' \<mapsto> PStr ''2023-07-12'',
        ''briefing_text'' \<mapsto> PStr ''Market outlook stays calm while costs rise today'',
        ''key_metrics'' \<mapsto> PStr ''94''],
       [''briefing_id'' \<mapsto> PStr ''B313'', ''date'' \<mapsto> PStr ''2023-07-13'',
        ''briefing_text'' \<mapsto> PStr ''growth growth RISK'',
        ''key_metrics'' \<mapsto> PFloat (Fin 92)],
       [''briefing_id'' \<mapsto> PStr ''B314'', ''date'' \<mapsto> PStr ''2023-07-14'',
        ''briefing_text'' \<mapsto> PStr ''Market outlook stays calm while costs rise today'']])) = [Fin 94, Fin 94, Fin 94, Fin 94]
   \<and> map key_metrics (projr (score_results
      [[''briefing_id'' \<mapsto> PStr ''B311'', ''date'' \<mapsto> PStr ''2023-07-11'',
        ''briefing_text'' \<mapsto> PStr ''growth growth RISK'', ''key_metrics'' \<mapsto> PInt 96],
       [''briefing_id'' \<mapsto> PStr ''B312'', ''date'' \<mapsto> PStr ''2023-07-12'',
        ''briefing_text'' \<mapsto> PStr ''Market outlook stays calm while costs rise today'',
        ''key_metrics'' \<mapsto> PStr ''94''],
       [''briefing_id'' \<mapsto> PStr ''B313'', ''date'' \<mapsto> PStr ''2023-07-13'',
        ''briefing_text'' \<mapsto> PStr ''growth growth RISK'',
        ''key_metrics'' \<mapsto> PFloat (Fin 92)],
       [''briefing_id'' \<mapsto> PStr ''B314'', ''date'' \<mapsto> PStr ''2023-07-14'',
        ''briefing_text'' \<mapsto> PStr ''Market outlook stays calm while costs rise today'']])) = [Some (Fin 96), Some (Fin 94), Some (Fin 92), None]"
proof -
  let ?rs = "[[''briefing_id'' \<mapsto> PStr ''B311'', ''date'' \<mapsto> PStr ''2023-07-11'',
        ''briefing_text'' \<mapsto> PStr ''growth growth RISK'', ''key_metrics'' \<mapsto> PInt 96],
       [''briefing_id'' \<mapsto> PStr ''B312'', ''date'' \<mapsto> PStr ''2023-07-12'',
        ''briefing_text'' \<mapsto> PStr ''Market outlook stays calm while costs rise today'',
        ''key_metrics'' \<mapsto> PStr ''94''],
       [''briefing_id'' \<mapsto> PStr ''B313'', ''date'' \<mapsto> PStr ''2023-07-13'',
        ''briefing_text'' \<mapsto> PStr ''growth growth RISK'',
        ''key_metrics'' \<mapsto> PFloat (Fin 92)],
       [''briefing_id'' \<mapsto> PStr ''B314'', ''date'' \<mapsto> PStr ''2023-07-14'',
        ''briefing_text'' \<mapsto> PStr ''Market outlook stays calm while costs rise today'']]"
  have av: "average_key_metric ?rs = Inr (Fin 94)"
    by (simp add: average_key_metric_def field_given_def float_key_metrics_def getitem_def
          float_of_int_def parse_float_94 fl_third_example)
  have sc: "score_results ?rs = process_all (Fin 94) ?rs"
    unfolding score_results_def av by simp
  have pa: "process_all (Fin 94) ?rs =
      Inr [projr (score_text (PStr ''B311'') (PStr ''2023-07-11'') ''growth growth RISK''
                    (Some (Fin 96)) (Fin 94)),
           projr (score_text (PStr ''B312'') (PStr ''2023-07-12'')
                    ''Market outlook stays calm while costs rise today'' (Some (Fin 94)) (Fin 94)),
           projr (score_text (PStr ''B313'') (PStr ''2023-07-13'') ''growth growth RISK''
                    (Some (Fin 92)) (Fin 94)),
           projr (score_text (PStr ''B314'') (PStr ''2023-07-14'')
                    ''Market outlook stays calm while costs rise today'' None (Fin 94))]"
    by (simp add: process_single_briefing_def getitem_def optional_key_metrics_def
          field_given_def float_key_metrics_def float_of_int_def parse_float_94
          fl_third_example score_text_example score_text_second_example)
  have h: "score_results ?rs = Inr (projr (score_results ?rs))"
    unfolding sc pa by simp
  have m1: "map avg_key_metric (projr (score_results ?rs)) = [Fin 94, Fin 94, Fin 94, Fin 94]"
    unfolding sc pa by (simp add: score_text_example score_text_second_example)
  have m2: "map key_metrics (projr (score_results ?rs))
              = [Some (Fin 96), Some (Fin 94), Some (Fin 92), None]"
    unfolding sc pa by (simp add: score_text_example score_text_second_example)
  have "score_results ?rs = Inr (projr (score_results ?rs)) \<longrightarrow>
      (\<exists>avg. average_key_metric ?rs = Inr avg
         \<and> length (projr (score_results ?rs)) = length ?rs
         \<and> (\<forall>k < length ?rs.
               process_single_briefing (?rs ! k) avg = Inr (projr (score_results ?rs) ! k)
               \<and> avg_key_metric (projr (score_results ?rs) ! k) = avg))"
    by (rule avg_key_metric_shared[of ?rs "projr (score_results ?rs)", THEN conjunct1])
  with h have "length (projr (score_results ?rs)) = length ?rs" by blast
  then have len: "length (projr (score_results ?rs)) = 4" by simp
  show ?thesis
    by (intro conjI) (fact h av len m1 m2)+
qed

section \<open>A falsy \<open>key_metrics\<close>\<close>

lemma falsy_not_given:
  "record ''key_metrics'' = Some v \<Longrightarrow> \<not> truthy v \<Longrightarrow> \<not> field_given record ''key_metrics''"
  by (simp add: field_given_def)

lemma removed_not_given: "\<not> field_given (record(''key_metrics'' := None)) ''key_metrics''"
  by (simp add: field_given_def)

lemma removed_missing_fields:
  "missing_fields (record(''key_metrics'' := None)) = missing_fields record"
  by (simp add: missing_fields_def required_fields_def field_given_def)

lemma removed_check_date:
  "check_date i (record(''key_metrics'' := None)) = check_date i record"
  by (simp add: check_date_def getitem_def)

lemma not_given_check_key_metrics:
  assumes "\<not> field_given record ''key_metrics''"
  shows "check_key_metrics i (record(''key_metrics'' := None)) = check_key_metrics i record"
  using assms removed_not_given[of "record"] by (simp add: check_key_metrics_def)

lemma not_given_validate_record:
  assumes "\<not> field_given record ''key_metrics''"
  shows "validate_record i (record(''key_metrics'' := None)) = validate_record i record"
  unfolding validate_record_def removed_missing_fields removed_check_date
    not_given_check_key_metrics[OF assms] ..

lemma not_given_report_status:
  assumes "\<not> field_given record ''key_metrics''"
  shows "report_key_metrics_status (record(''key_metrics'' := None))
           = report_key_metrics_status record"
    and "report_date_status (record(''key_metrics'' := None)) = report_date_status record"
    and "field_given (record(''key_metrics'' := None)) ''briefing_id''
           = field_given record ''briefing_id''"
    and "field_given (record(''key_metrics'' := None)) ''briefing_text''
           = field_given record ''briefing_text''"
  using assms removed_not_given[of "record"]
  by (simp_all add: report_key_metrics_status_def report_date_status_def)
     (simp_all add: field_given_def)

lemma not_given_report_record:
  assumes "\<not> field_given record ''key_metrics''"
  shows "report_record i (record(''key_metrics'' := None)) = report_record i record"
  unfolding report_record_def not_given_report_status[OF assms] ..

lemma not_given_optional:
  assumes "\<not> field_given record ''key_metrics''"
  shows "optional_key_metrics (record(''key_metrics'' := None)) = optional_key_metrics record"
    and "getitem (record(''key_metrics'' := None)) ''briefing_id'' = getitem record ''briefing_id''"
    and "getitem (record(''key_metrics'' := None)) ''date'' = getitem record ''date''"
    and "getitem (record(''key_metrics'' := None)) ''briefing_text''
           = getitem record ''briefing_text''"
  using assms removed_not_given[of "record"]
  by (simp_all add: optional_key_metrics_def getitem_def)

lemma not_given_process_single:
  assumes "\<not> field_given record ''key_metrics''"
  shows "process_single_briefing (record(''key_metrics'' := None)) avg
           = process_single_briefing record avg"
  unfolding process_single_briefing_def not_given_optional[OF assms] ..

lemma not_given_process_all:
  assumes "\<not> field_given record ''key_metrics''"
  shows "process_all avg (xs @ record(''key_metrics'' := None) # ys)
           = process_all avg (xs @ record # ys)"
proof (induction xs)
  case Nil
  show ?case
    unfolding append_Nil process_all.simps not_given_process_single[OF assms] ..
next
  case (Cons a xs)
  show ?case
    unfolding append_Cons process_all.simps Cons.IH ..
qed

text \<open>
  Claim C10. A record whose \<open>key_metrics\<close> is present but falsy, such as the number
  0 or the empty string, is treated as the same record without the field: the
  validator emits no \<open>key_metrics\<close> diagnostic and returns what it returns without
  the field, the validation report has the same entry, the record does not count in
  the mean \<open>avg_key_metric\<close>, and the scorer returns what it returns without the
  field, a result whose \<open>key_metrics\<close> is \<open>None\<close>.
\<close>

theorem falsy_key_metrics_as_absent:
  assumes "r ''key_metrics'' = Some v" and "\<not> truthy v"
  shows "check_key_metrics i r = Inr []
       \<and> validate_record i r = validate_record i (r(''key_metrics'' := None))
       \<and> report_record i r = report_record i (r(''key_metrics'' := None))
       \<and> filter (\<lambda>x. field_given x ''key_metrics'') (xs @ r # ys)
           = filter (\<lambda>x. field_given x ''key_metrics'') (xs @ ys)
       \<and> average_key_metric (xs @ r # ys) = average_key_metric (xs @ ys)
       \<and> process_single_briefing r avg
           = process_single_briefing (r(''key_metrics'' := None)) avg
       \<and> (process_single_briefing r avg = Inr res \<longrightarrow> key_metrics res = None)
       \<and> score_results (xs @ r # ys)
           = score_results (xs @ r(''key_metrics'' := None) # ys)
       \<and> \<not> truthy (PInt 0) \<and> \<not> truthy (PStr [])"
proof -
  have ng: "\<not> field_given r ''key_metrics''"
    using assms by (rule falsy_not_given)
  note ng' = removed_not_given[of r]
  have a: "check_key_metrics i r = Inr []"
    using ng by (simp add: check_key_metrics_def)
  have b: "validate_record i r = validate_record i (r(''key_metrics'' := None))"
    by (simp add: not_given_validate_record[OF ng])
  have c: "report_record i r = report_record i (r(''key_metrics'' := None))"
    by (simp add: not_given_report_record[OF ng])
  have d: "filter (\<lambda>x. field_given x ''key_metrics'') (xs @ r # ys)
           = filter (\<lambda>x. field_given x ''key_metrics'') (xs @ ys)"
    using ng by simp
  have d': "filter (\<lambda>x. field_given x ''key_metrics'') (xs @ r(''key_metrics'' := None) # ys)
           = filter (\<lambda>x. field_given x ''key_metrics'') (xs @ ys)"
    using ng' by simp
  have e: "average_key_metric (xs @ r # ys) = average_key_metric (xs @ ys)"
    unfolding average_key_metric_def d ..
  have e': "average_key_metric (xs @ r(''key_metrics'' := None) # ys)
              = average_key_metric (xs @ ys)"
    unfolding average_key_metric_def d' ..
  have f: "process_single_briefing r avg
           = process_single_briefing (r(''key_metrics'' := None)) avg"
    by (simp add: not_given_process_single[OF ng])
  have g: "process_single_briefing r avg = Inr res \<longrightarrow> key_metrics res = None"
  proof
    assume p: "process_single_briefing r avg = Inr res"
    from process_single_briefing_text[OF p] obtain bid dt t km where
      k: "optional_key_metrics r = Inr km" and s: "score_text bid dt t km avg = Inr res"
      by blast
    from k ng have "km = None" by (simp add: optional_key_metrics_def)
    with score_text_fields[OF s] show "key_metrics res = None" by simp
  qed
  have h: "score_results (xs @ r # ys)
           = score_results (xs @ r(''key_metrics'' := None) # ys)"
    unfolding score_results_def e e' not_given_process_all[OF ng] ..
  have t1: "\<not> truthy (PInt 0)" by simp
  have t2: "\<not> truthy (PStr [])" by simp
  show ?thesis
    by (intro conjI) (fact a b c d e f g h t1 t2)+
qed


theorem falsy_key_metrics_as_absent_witness:
  "[''briefing_id'' \<mapsto> PStr ''B5'', ''date'' \<mapsto> PStr ''2023-07-15'',
       ''briefing_text'' \<mapsto> PStr ''growth growth RISK'', ''key_metrics'' \<mapsto> PInt 0] ''key_metrics'' = Some (PInt 0)
   \<and> \<not> truthy (PInt 0)
   \<and> validate_record 1
      [''briefing_id'' \<mapsto> PStr ''B5'', ''date'' \<mapsto> PStr ''2023-07-15'',
       ''briefing_text'' \<mapsto> PStr ''growth growth RISK'', ''key_metrics'' \<mapsto> PInt 0] = Inr []
   \<and> average_key_metric
      [[''briefing_id'' \<mapsto> PStr ''B5'', ''date'' \<mapsto> PStr ''2023-07-15'',
       ''briefing_text'' \<mapsto> PStr ''growth growth RISK'', ''key_metrics'' \<mapsto> PInt 0]] = Inr (Fin 0)
   \<and> process_single_briefing
      [''briefing_id'' \<mapsto> PStr ''B5'', ''date'' \<mapsto> PStr ''2023-07-15'',
       ''briefing_text'' \<mapsto> PStr ''growth growth RISK'', ''key_metrics'' \<mapsto> PInt 0] (Fin 0)
      = Inr (projr (process_single_briefing
      [''briefing_id'' \<mapsto> PStr ''B5'', ''date'' \<mapsto> PStr ''2023-07-15'',
       ''briefing_text'' \<mapsto> PStr ''growth growth RISK'', ''key_metrics'' \<mapsto> PInt 0] (Fin 0)))
   \<and> key_metrics (projr (process_single_briefing
      [''briefing_id'' \<mapsto> PStr ''B5'', ''date'' \<mapsto> PStr ''2023-07-15'',
       ''briefing_text'' \<mapsto> PStr ''growth growth RISK'', ''key_metrics'' \<mapsto> PInt 0] (Fin 0))) = None
   \<and> validate_record 1
      [''briefing_id'' \<mapsto> PStr ''B5'', ''date'' \<mapsto> PStr ''2023-07-15'',
       ''briefing_text'' \<mapsto> PStr ''growth growth RISK'', ''key_metrics'' \<mapsto> PStr []] = Inr []
   \<and> average_key_metric
      [[''briefing_id'' \<mapsto> PStr ''B5'', ''date'' \<mapsto> PStr ''2023-07-15'',
       ''briefing_text'' \<mapsto> PStr ''growth growth RISK'', ''key_metrics'' \<mapsto> PStr []]] = Inr (Fin 0)"
proof -
  let ?r0 = "[''briefing_id'' \<mapsto> PStr ''B5'', ''date'' \<mapsto> PStr ''2023-07-15'',
       ''briefing_text'' \<mapsto> PStr ''growth growth RISK'', ''key_metrics'' \<mapsto> PInt 0]"
  let ?r1 = "[''briefing_id'' \<mapsto> PStr ''B5'', ''date'' \<mapsto> PStr ''2023-07-15'',
       ''briefing_text'' \<mapsto> PStr ''growth growth RISK'', ''key_metrics'' \<mapsto> PStr []]"
  have k0: "?r0 ''key_metrics'' = Some (PInt 0)" by simp
  have k1: "?r1 ''key_metrics'' = Some (PStr [])" by simp
  have f0: "\<not> truthy (PInt 0)" by simp
  have f1: "\<not> truthy (PStr [])" by simp
  have d: "is_valid_date (PStr ''2023-07-15'') = Inr True" by code_simp
  have v: "validate_record 1 (?r0(''key_metrics'' := None)) = Inr []"
    using d by (simp add: validate_record_def missing_fields_def required_fields_def
          field_given_def check_date_def getitem_def check_key_metrics_def)
  have v1: "validate_record 1 (?r1(''key_metrics'' := None)) = Inr []"
    using d by (simp add: validate_record_def missing_fields_def required_fields_def
          field_given_def check_date_def getitem_def check_key_metrics_def)
  have e: "average_key_metric ([] @ []) = Inr (Fin 0)"
    by (simp add: average_key_metric_def)
  have p: "process_single_briefing (?r0(''key_metrics'' := None)) (Fin 0)
             = Inr (projr (process_single_briefing (?r0(''key_metrics'' := None)) (Fin 0)))"
    by (simp add: process_single_briefing_def getitem_def optional_key_metrics_def
          field_given_def score_text_example)
  note t0 = falsy_key_metrics_as_absent[where r = ?r0 and v = "PInt 0" and i = 1
              and xs = "[]" and ys = "[]" and avg = "Fin 0"
              and res = "projr (process_single_briefing ?r0 (Fin 0))", OF k0 f0]
  note t1 = falsy_key_metrics_as_absent[where r = ?r1 and v = "PStr []" and i = 1
              and xs = "[]" and ys = "[]" and avg = "Fin 0"
              and res = "projr (process_single_briefing ?r1 (Fin 0))", OF k1 f1]
  from t0 v have a1: "validate_record 1 ?r0 = Inr []" by simp
  from t0 e have a2: "average_key_metric [?r0] = Inr (Fin 0)" by simp
  from t0 p have a3: "process_single_briefing ?r0 (Fin 0)
      = Inr (projr (process_single_briefing ?r0 (Fin 0)))" by simp
  from t0 a3 have a4: "key_metrics (projr (process_single_briefing ?r0 (Fin 0))) = None"
    by blast
  from t1 v1 have b1: "validate_record 1 ?r1 = Inr []" by simp
  from t1 e have b2: "average_key_metric [?r1] = Inr (Fin 0)" by simp
  show ?thesis
    by (intro conjI) (fact k0 f0 a1 a2 a3 a4 b1 b2)+
qed

end
